theory Spec2Isabelle
  imports Main "HOL-Library.Sublist"
begin

section \<open>Strings and the C++ library operations the server uses\<close>

text \<open>
  A \<open>std::string\<close> is a list of bytes. \<open>std::string::npos\<close> is \<open>None\<close>. The sizes
  (\<open>size_t\<close>) are natural numbers: every index the code computes stays within the length
  of the string it indexes, so no subtraction wraps; the one place where the 64-bit range
  matters, reading \<open>Content-Length\<close>, writes it out.
\<close>

definition CRLF :: string where "CRLF = [CHR 0x0D, CHR 0x0A]"

text \<open>First position of \<open>pat\<close> in \<open>s\<close>.\<close>

fun find_sub :: "string \<Rightarrow> string \<Rightarrow> nat option" where
  "find_sub pat [] = (if pat = [] then Some 0 else None)"
| "find_sub pat (x # xs) =
     (if prefix pat (x # xs) then Some 0 else map_option Suc (find_sub pat xs))"

text \<open>\<open>s.find(pat, pos)\<close>: the first occurrence starting at or after \<open>pos\<close>.\<close>

definition str_find :: "string \<Rightarrow> string \<Rightarrow> nat \<Rightarrow> nat option" where
  "str_find s pat pos =
     (if length s < pos then None
      else map_option (\<lambda>i. i + pos) (find_sub pat (drop pos s)))"

text \<open>\<open>s.find(c)\<close> for a single character.\<close>

definition find_char :: "string \<Rightarrow> char \<Rightarrow> nat option" where
  "find_char s c = (if c \<in> set s then Some (length (takeWhile (\<lambda>x. x \<noteq> c) s)) else None)"

text \<open>\<open>s.find_last_of(cs)\<close>: the last position holding a character of \<open>cs\<close>.\<close>

definition find_last_of :: "string \<Rightarrow> string \<Rightarrow> nat option" where
  "find_last_of s cs =
     (if \<exists>x \<in> set s. x \<in> set cs
      then Some (length s - 1 - length (takeWhile (\<lambda>x. x \<notin> set cs) (rev s)))
      else None)"

text \<open>\<open>s.find_first_not_of(cs)\<close> and \<open>s.find_last_not_of(cs)\<close>.\<close>

definition find_first_not_of :: "string \<Rightarrow> string \<Rightarrow> nat option" where
  "find_first_not_of s cs =
     (if \<exists>x \<in> set s. x \<notin> set cs
      then Some (length (takeWhile (\<lambda>x. x \<in> set cs) s))
      else None)"

definition find_last_not_of :: "string \<Rightarrow> string \<Rightarrow> nat option" where
  "find_last_not_of s cs =
     (if \<exists>x \<in> set s. x \<notin> set cs
      then Some (length s - 1 - length (takeWhile (\<lambda>x. x \<in> set cs) (rev s)))
      else None)"

text \<open>\<open>s.substr(pos, n)\<close> and \<open>s.substr(pos)\<close>, for \<open>pos \<le> s.size()\<close>.\<close>

definition substr :: "string \<Rightarrow> nat \<Rightarrow> nat \<Rightarrow> string" where
  "substr s pos n = take n (drop pos s)"

definition substr_from :: "string \<Rightarrow> nat \<Rightarrow> string" where
  "substr_from s pos = drop pos s"

text \<open>\<open>isspace\<close>, \<open>tolower\<close>, \<open>isalnum\<close> in the C locale.\<close>

definition isspace :: "char \<Rightarrow> bool" where
  "isspace c = (c \<in> set [CHR '' '', CHR 0x09, CHR 0x0A, CHR 0x0B, CHR 0x0C, CHR 0x0D])"

definition isupper :: "char \<Rightarrow> bool" where
  "isupper c = (65 \<le> (of_char c :: nat) \<and> (of_char c :: nat) \<le> 90)"

definition islower :: "char \<Rightarrow> bool" where
  "islower c = (97 \<le> (of_char c :: nat) \<and> (of_char c :: nat) \<le> 122)"

definition isdigit :: "char \<Rightarrow> bool" where
  "isdigit c = (48 \<le> (of_char c :: nat) \<and> (of_char c :: nat) \<le> 57)"

definition isalnum :: "char \<Rightarrow> bool" where
  "isalnum c = (isupper c \<or> islower c \<or> isdigit c)"

definition tolower :: "char \<Rightarrow> char" where
  "tolower c = (if isupper c then char_of ((of_char c :: nat) + 32) else c)"

text \<open>The two file-local helpers of HttpRequest.cpp.\<close>

definition ws4 :: string where
  "ws4 = [CHR '' '', CHR 0x09, CHR 0x0D, CHR 0x0A]"

definition trim :: "string \<Rightarrow> string" where
  "trim str =
     (case find_first_not_of str ws4 of
        None \<Rightarrow> []
      | Some first_pos \<Rightarrow>
          (case find_last_not_of str ws4 of
             None \<Rightarrow> []
           | Some last_pos \<Rightarrow> substr str first_pos (last_pos - first_pos + 1)))"

definition toLower :: "string \<Rightarrow> string" where
  "toLower str = map tolower str"

text \<open>
  \<open>stream >> word\<close> on an input stream holding \<open>s\<close>: leading white space is skipped,
  then the characters up to the next white space are taken. When only white space (or
  nothing) is left the extraction fails and the target string keeps its old value; the
  stream is then exhausted, so every later extraction fails too.
\<close>

definition extract_word :: "string \<Rightarrow> string \<Rightarrow> string \<times> string" where
  "extract_word old s =
     (let s' = dropWhile isspace s
      in if s' = [] then (old, [])
         else (takeWhile (\<lambda>c. \<not> isspace c) s', dropWhile (\<lambda>c. \<not> isspace c) s'))"

text \<open>
  \<open>stream >> n\<close> for a \<open>size_t\<close> (64 bits): white space is skipped (nothing left: the
  target keeps its old value), then an optional sign and decimal digits are read. No digit
  stores 0, a value beyond the range stores the largest \<open>size_t\<close>, and a minus sign negates
  modulo \<open>2^64\<close>.
\<close>

definition digits_value :: "string \<Rightarrow> int" where
  "digits_value ds = foldl (\<lambda>acc c. 10 * acc + ((of_char c :: int) - 48)) 0 ds"

definition extract_size_t :: "nat \<Rightarrow> string \<Rightarrow> nat" where
  "extract_size_t old s =
     (let s' = dropWhile isspace s
      in if s' = [] then old
         else
           (let neg = (hd s' = CHR ''-'');
                t = (if hd s' = CHR ''-'' \<or> hd s' = CHR ''+'' then tl s' else s');
                ds = takeWhile isdigit t;
                v = digits_value ds
            in if ds = [] then 0
               else if 2 ^ 64 \<le> v then nat (2 ^ 64 - 1)
               else if neg then nat ((2 ^ 64 - v) mod 2 ^ 64)
               else nat v))"

section \<open>The request and its parser (HttpRequest.hpp, HttpRequest.cpp)\<close>

datatype HttpMethod = GET | POST | DELETE | PUT | HEAD | UNKNOWN

datatype ParseState = REQUEST_LINE | HEADERS | BODY | COMPLETE | ERROR

record HttpRequest =
  "method" :: HttpMethod
  uri :: string
  query_string :: string
  http_version :: string
  headers :: "string \<rightharpoonup> string"
  body :: string
  state :: ParseState
  raw_data :: string
  bytes_parsed :: nat
  content_length :: nat
  boundary :: string
  error_code :: int

text \<open>The constructor \<open>HttpRequest::HttpRequest()\<close>.\<close>

definition HttpRequest_new :: HttpRequest where
  "HttpRequest_new =
     \<lparr> method = UNKNOWN, uri = [], query_string = [], http_version = [],
       headers = Map.empty, body = [], state = REQUEST_LINE, raw_data = [],
       bytes_parsed = 0, content_length = 0, boundary = [], error_code = 0 \<rparr>"

definition reset :: "HttpRequest \<Rightarrow> HttpRequest" where
  "reset r =
     r\<lparr> method := UNKNOWN, uri := [], query_string := [], http_version := [],
        headers := Map.empty, body := [], state := REQUEST_LINE, raw_data := [],
        bytes_parsed := 0, content_length := 0, boundary := [], error_code := 0 \<rparr>"

definition stringToMethod :: "string \<Rightarrow> HttpMethod" where
  "stringToMethod method_str =
     (if method_str = ''GET'' then GET
      else if method_str = ''POST'' then POST
      else if method_str = ''DELETE'' then DELETE
      else if method_str = ''PUT'' then PUT
      else if method_str = ''HEAD'' then HEAD
      else UNKNOWN)"

fun methodString :: "HttpMethod \<Rightarrow> string" where
  "methodString GET = ''GET''"
| "methodString POST = ''POST''"
| "methodString DELETE = ''DELETE''"
| "methodString PUT = ''PUT''"
| "methodString HEAD = ''HEAD''"
| "methodString UNKNOWN = ''UNKNOWN''"

definition getMethodString :: "HttpRequest \<Rightarrow> string" where
  "getMethodString r = methodString (method r)"

definition parseQueryString :: "HttpRequest \<Rightarrow> HttpRequest" where
  "parseQueryString r =
     (case find_char (uri r) (CHR ''?'') of
        None \<Rightarrow> r
      | Some pos \<Rightarrow>
          r\<lparr> query_string := substr_from (uri r) (pos + 1),
             uri := substr (uri r) 0 pos \<rparr>)"

definition parseRequestLine :: "HttpRequest \<Rightarrow> string \<Rightarrow> HttpRequest" where
  "parseRequestLine r line =
     (let (method_str, rest1) = extract_word [] line;
          (uri', rest2) = extract_word (uri r) rest1;
          (version', rest3) = extract_word (http_version r) rest2;
          r1 = r\<lparr> uri := uri', http_version := version',
                  method := stringToMethod method_str \<rparr>
      in if method r1 = UNKNOWN then r1\<lparr> error_code := 405, state := ERROR \<rparr>
         else if uri r1 = [] \<or> http_version r1 = []
         then r1\<lparr> error_code := 400, state := ERROR \<rparr>
         else if http_version r1 \<noteq> ''HTTP/1.1'' \<and> http_version r1 \<noteq> ''HTTP/1.0''
         then r1\<lparr> error_code := 505, state := ERROR \<rparr>
         else (parseQueryString r1)\<lparr> state := HEADERS \<rparr>)"

definition parseHeader :: "HttpRequest \<Rightarrow> string \<Rightarrow> HttpRequest" where
  "parseHeader r line =
     (case find_char line (CHR '':'') of
        None \<Rightarrow> r\<lparr> error_code := 400, state := ERROR \<rparr>
      | Some pos \<Rightarrow>
          (let key = trim (substr line 0 pos);
               val = trim (substr_from line (pos + 1))
           in r\<lparr> headers := (headers r)(toLower key \<mapsto> val) \<rparr>))"

definition getHeader :: "HttpRequest \<Rightarrow> string \<Rightarrow> string" where
  "getHeader r key = (case headers r (toLower key) of Some v \<Rightarrow> v | None \<Rightarrow> [])"

definition isChunked :: "HttpRequest \<Rightarrow> bool" where
  "isChunked r =
     (str_find (toLower (getHeader r ''Transfer-Encoding'')) ''chunked'' 0 \<noteq> None)"

text \<open>
  The block of \<open>HttpRequest::parse\<close> run on the empty line that ends the headers, in
  its three steps: \<open>Content-Length\<close> is read, then the multipart boundary, then the next
  state is chosen.
\<close>

definition strip_quotes :: "string \<Rightarrow> string" where
  "strip_quotes b =
     (if b \<noteq> [] \<and> hd b = CHR 0x22 \<and> last b = CHR 0x22
      then substr b 1 (length b - 2) else b)"

definition readContentLength :: "HttpRequest \<Rightarrow> HttpRequest" where
  "readContentLength r =
     (let content_len_str = getHeader r ''Content-Length''
      in if content_len_str \<noteq> []
         then r\<lparr> content_length := extract_size_t (content_length r) content_len_str \<rparr>
         else r)"

definition readBoundary :: "HttpRequest \<Rightarrow> HttpRequest" where
  "readBoundary r =
     (let content_type = getHeader r ''Content-Type''
      in if str_find content_type ''multipart/form-data'' 0 \<noteq> None
         then (case str_find content_type ''boundary='' 0 of
                 None \<Rightarrow> r
               | Some boundary_pos \<Rightarrow>
                   r\<lparr> boundary := strip_quotes (substr_from content_type (boundary_pos + 9)) \<rparr>)
         else r)"

definition endOfHeaders :: "HttpRequest \<Rightarrow> HttpRequest" where
  "endOfHeaders r =
     (let r2 = readBoundary (readContentLength r)
      in if 0 < content_length r2 \<or> isChunked r2
         then r2\<lparr> state := BODY \<rparr>
         else r2\<lparr> state := COMPLETE \<rparr>)"

text \<open>
  One pass through the body of the \<open>while\<close> loop of \<open>HttpRequest::parse\<close>, entered with
  a state other than COMPLETE and ERROR: \<open>Inl\<close> is a \<open>return\<close> from inside the loop (the
  object and the value returned), \<open>Inr\<close> the object with which the loop goes round again.
\<close>

definition loop_body :: "HttpRequest \<Rightarrow> (HttpRequest \<times> bool) + HttpRequest" where
  "loop_body r =
     (if state r = REQUEST_LINE \<or> state r = HEADERS then
        (case str_find (raw_data r) CRLF (bytes_parsed r) of
           None \<Rightarrow>
             Inl (if 8192 < length (raw_data r)
                  then r\<lparr> error_code := 431, state := ERROR \<rparr> else r, False)
         | Some line_end \<Rightarrow>
             (let line = substr (raw_data r) (bytes_parsed r) (line_end - bytes_parsed r);
                  r1 = r\<lparr> bytes_parsed := line_end + 2 \<rparr>
              in if state r1 = REQUEST_LINE then Inr (parseRequestLine r1 line)
                 else if line = [] then Inr (endOfHeaders r1)
                 else Inr (parseHeader r1 line)))
      else if state r = BODY then
        (if isChunked r then Inl (r\<lparr> error_code := 501, state := ERROR \<rparr>, False)
         else
           (let available = length (raw_data r) - bytes_parsed r
            in if content_length r \<le> available
               then Inr (r\<lparr> body := substr (raw_data r) (bytes_parsed r) (content_length r),
                            bytes_parsed := bytes_parsed r + content_length r,
                            state := COMPLETE \<rparr>)
               else Inl (r, False)))
      else Inr r)"

definition terminal :: "HttpRequest \<Rightarrow> bool" where
  "terminal r = (state r = COMPLETE \<or> state r = ERROR)"

definition loop_measure :: "HttpRequest \<Rightarrow> nat" where
  "loop_measure r =
     2 * (length (raw_data r) - bytes_parsed r) + (if state r = BODY then 1 else 0)"

lemma find_sub_bound: "find_sub pat s = Some i \<Longrightarrow> i + length pat \<le> length s"
proof (induction s arbitrary: i)
  case Nil
  then show ?case by (simp split: if_splits)
next
  case (Cons x xs)
  show ?case
  proof (cases "prefix pat (x # xs)")
    case True
    with Cons.prems have "i = 0" by simp
    with prefix_length_le[OF True] show ?thesis by simp
  next
    case False
    with Cons.prems obtain j where "find_sub pat xs = Some j" "i = Suc j" by auto
    with Cons.IH show ?thesis by fastforce
  qed
qed

lemma str_find_bounds:
  assumes "str_find s pat pos = Some i"
  shows "pos \<le> i" and "i + length pat \<le> length s"
proof -
  from assms obtain j where j: "find_sub pat (drop pos s) = Some j" "i = j + pos" "pos \<le> length s"
    by (auto simp: str_find_def split: if_splits)
  from j show "pos \<le> i" by simp
  from find_sub_bound[OF j(1)] j show "i + length pat \<le> length s" by simp
qed

lemma parseQueryString_frame [simp]:
  "raw_data (parseQueryString r) = raw_data r"
  "bytes_parsed (parseQueryString r) = bytes_parsed r"
  by (simp_all add: parseQueryString_def split: option.splits)

lemma parseRequestLine_frame [simp]:
  "raw_data (parseRequestLine r line) = raw_data r"
  "bytes_parsed (parseRequestLine r line) = bytes_parsed r"
  by (simp_all add: parseRequestLine_def Let_def split: prod.splits)

lemma parseHeader_frame [simp]:
  "raw_data (parseHeader r line) = raw_data r"
  "bytes_parsed (parseHeader r line) = bytes_parsed r"
  by (simp_all add: parseHeader_def Let_def split: option.splits)

lemma endOfHeaders_frame [simp]:
  "raw_data (endOfHeaders r) = raw_data r"
  "bytes_parsed (endOfHeaders r) = bytes_parsed r"
  by (simp_all add: endOfHeaders_def readBoundary_def readContentLength_def Let_def
      split: option.splits)

lemma parseRequestLine_state:
  "state (parseRequestLine r line) = ERROR \<or> state (parseRequestLine r line) = HEADERS"
  by (simp add: parseRequestLine_def Let_def split: prod.splits)

lemma parseHeader_state:
  "state (parseHeader r line) = ERROR \<or> state (parseHeader r line) = state r"
  by (simp add: parseHeader_def Let_def split: option.splits)

lemma endOfHeaders_state:
  "state (endOfHeaders r) = BODY \<or> state (endOfHeaders r) = COMPLETE"
  by (simp add: endOfHeaders_def Let_def)

lemma loop_body_decreases:
  assumes "\<not> terminal r" and "loop_body r = Inr r'"
  shows "loop_measure r' < loop_measure r"
proof (cases "state r = REQUEST_LINE \<or> state r = HEADERS")
  case True
  with assms(2) obtain e where e: "str_find (raw_data r) CRLF (bytes_parsed r) = Some e"
    by (auto simp: loop_body_def split: option.splits)
  from str_find_bounds[OF e] have b: "bytes_parsed r \<le> e" "e + 2 \<le> length (raw_data r)"
    by (simp_all add: CRLF_def)
  from True e assms(2) have raw: "raw_data r' = raw_data r" and bp: "bytes_parsed r' = e + 2"
    by (auto simp: loop_body_def Let_def split: if_splits)
  from b raw bp show ?thesis using True
    by (auto simp: loop_measure_def)
next
  case False
  with assms have st: "state r = BODY"
    by (cases "state r") (auto simp: terminal_def)
  with assms(2) have "state r' = COMPLETE" "raw_data r' = raw_data r" "bytes_parsed r \<le> bytes_parsed r'"
    by (auto simp: loop_body_def Let_def split: if_splits)
  with st show ?thesis by (simp add: loop_measure_def)
qed

text \<open>
  The \<open>while\<close> loop of \<open>HttpRequest::parse\<close> with the \<open>return\<close> that follows it. Every
  pass that goes round again consumes a line or completes the body, so the loop ends.
\<close>

function parse_loop :: "HttpRequest \<Rightarrow> HttpRequest \<times> bool" where
  "parse_loop r =
     (if terminal r then (r, state r = COMPLETE)
      else (case loop_body r of
              Inl res \<Rightarrow> res
            | Inr r' \<Rightarrow> parse_loop r'))"
  by pat_completeness auto
termination
  by (relation "measure loop_measure") (auto simp: loop_body_decreases)

declare parse_loop.simps [simp del]

text \<open>\<open>HttpRequest::parse(data, len)\<close>: the object after the call and the value returned.\<close>

definition parse :: "HttpRequest \<Rightarrow> string \<Rightarrow> HttpRequest \<times> bool" where
  "parse r data =
     (if state r = COMPLETE \<or> state r = ERROR then (r, state r = COMPLETE)
      else parse_loop (r\<lparr> raw_data := raw_data r @ data \<rparr>))"

section \<open>The response (HttpResponse.hpp, HttpResponse.cpp)\<close>

text \<open>
  Decimal output of an unsigned and of a signed number, as \<open>stream << n\<close> writes them.
\<close>

definition digit_char :: "nat \<Rightarrow> char" where
  "digit_char d = char_of (48 + d)"

function show_nat :: "nat \<Rightarrow> string" where
  "show_nat n = (if n < 10 then [digit_char n] else show_nat (n div 10) @ [digit_char (n mod 10)])"
  by pat_completeness auto
termination
  by (relation "measure id") auto

declare show_nat.simps [simp del]

definition show_int :: "int \<Rightarrow> string" where
  "show_int i = (if i < 0 then CHR ''-'' # show_nat (nat (- i)) else show_nat (nat i))"

text \<open>
  \<open>std::string\<close> comparison, the order of the keys of a \<open>std::map\<close>: lexicographic on the
  bytes taken as unsigned.
\<close>

fun str_less :: "string \<Rightarrow> string \<Rightarrow> bool" where
  "str_less [] [] = False"
| "str_less [] (y # ys) = True"
| "str_less (x # xs) [] = False"
| "str_less (x # xs) (y # ys) =
     ((of_char x :: nat) < of_char y \<or> (x = y \<and> str_less xs ys))"

text \<open>
  A \<open>std::map\<close> from strings to strings as the list of its entries in key order;
  \<open>map_assign m k v\<close> is \<open>m[k] = v\<close>.
\<close>

fun map_assign :: "(string \<times> string) list \<Rightarrow> string \<Rightarrow> string \<Rightarrow> (string \<times> string) list" where
  "map_assign [] k v = [(k, v)]"
| "map_assign ((k', v') # m) k v =
     (if k = k' then (k, v) # m
      else if str_less k k' then (k, v) # (k', v') # m
      else (k', v') # map_assign m k v)"

record HttpResponse =
  status_code :: int
  status_message :: string
  response_headers :: "(string \<times> string) list"
  response_body :: string
  headers_sent :: bool

definition getStatusMessage :: "int \<Rightarrow> string" where
  "getStatusMessage code =
     (if code = 200 then ''OK''
      else if code = 201 then ''Created''
      else if code = 204 then ''No Content''
      else if code = 301 then ''Moved Permanently''
      else if code = 302 then ''Found''
      else if code = 304 then ''Not Modified''
      else if code = 400 then ''Bad Request''
      else if code = 403 then ''Forbidden''
      else if code = 404 then ''Not Found''
      else if code = 405 then ''Method Not Allowed''
      else if code = 413 then ''Payload Too Large''
      else if code = 431 then ''Request Header Fields Too Large''
      else if code = 500 then ''Internal Server Error''
      else if code = 501 then ''Not Implemented''
      else if code = 505 then ''HTTP Version Not Supported''
      else ''Unknown'')"

definition setHeader :: "HttpResponse \<Rightarrow> string \<Rightarrow> string \<Rightarrow> HttpResponse" where
  "setHeader resp key val = resp\<lparr> response_headers := map_assign (response_headers resp) key val \<rparr>"

definition setStatusCode :: "HttpResponse \<Rightarrow> int \<Rightarrow> HttpResponse" where
  "setStatusCode resp code = resp\<lparr> status_code := code, status_message := getStatusMessage code \<rparr>"

definition setBody :: "HttpResponse \<Rightarrow> string \<Rightarrow> HttpResponse" where
  "setBody resp content =
     setHeader (resp\<lparr> response_body := content \<rparr>) ''Content-Length'' (show_nat (length content))"

definition setContentType :: "HttpResponse \<Rightarrow> string \<Rightarrow> HttpResponse" where
  "setContentType resp mime_type = setHeader resp ''Content-Type'' mime_type"

text \<open>The two constructors: \<open>HttpResponse()\<close> and \<open>HttpResponse(code)\<close>.\<close>

definition HttpResponse_default :: HttpResponse where
  "HttpResponse_default =
     setHeader \<lparr> status_code = 200, status_message = ''OK'', response_headers = [],
                 response_body = [], headers_sent = False \<rparr> ''Server'' ''WebServ/1.0''"

definition HttpResponse_new :: "int \<Rightarrow> HttpResponse" where
  "HttpResponse_new code =
     setHeader \<lparr> status_code = code, status_message = getStatusMessage code,
                 response_headers = [], response_body = [], headers_sent = False \<rparr>
       ''Server'' ''WebServ/1.0''"

definition build :: "HttpResponse \<Rightarrow> string" where
  "build resp =
     ''HTTP/1.1 '' @ show_int (status_code resp) @ '' '' @ status_message resp @ CRLF
     @ concat (map (\<lambda>(k, v). k @ '': '' @ v @ CRLF) (response_headers resp))
     @ CRLF @ response_body resp"

text \<open>
  The static builders. \<open>loadErrorPage\<close> reads \<open>www/errors/<code>.html\<close>; the file system
  is the function \<open>read_file\<close>, which gives the content of a file that can be opened.
\<close>

definition loadErrorPage :: "(string \<Rightarrow> string option) \<Rightarrow> string \<Rightarrow> string" where
  "loadErrorPage read_file code =
     (case read_file (''www/errors/'' @ code @ ''.html'') of
        Some content \<Rightarrow> content
      | None \<Rightarrow> ''<html><body><h1>'' @ code @ '' Error</h1></body></html>'')"

definition ok :: "string \<Rightarrow> string \<Rightarrow> HttpResponse" where
  "ok content content_type = setBody (setContentType (HttpResponse_new 200) content_type) content"

definition created :: "string \<Rightarrow> HttpResponse" where
  "created location =
     setContentType
       (setBody (if location \<noteq> [] then setHeader (HttpResponse_new 201) ''Location'' location
                 else HttpResponse_new 201)
          ''<html><body><h1>201 Created</h1></body></html>'')
       ''text/html''"

definition noContent :: HttpResponse where
  "noContent = HttpResponse_new 204"

definition redirect :: "string \<Rightarrow> int \<Rightarrow> HttpResponse" where
  "redirect location code =
     setContentType
       (setBody (setHeader (HttpResponse_new code) ''Location'' location)
          (''<html><body><h1>Redirect</h1><p>Redirecting to <a href='' @ [CHR 0x22] @ location
           @ [CHR 0x22] @ ''>'' @ location @ ''</a></p></body></html>''))
       ''text/html''"

definition badRequest :: "string \<Rightarrow> HttpResponse" where
  "badRequest message =
     setContentType
       (setBody (HttpResponse_new 400)
          (''<html><body><h1>400 Bad Request</h1><p>'' @ message @ ''</p></body></html>''))
       ''text/html''"

definition notFound :: "(string \<Rightarrow> string option) \<Rightarrow> string \<Rightarrow> HttpResponse" where
  "notFound read_file message =
     (let page = loadErrorPage read_file ''404'';
          content = (if page = ''<html><body><h1>404 Error</h1></body></html>''
                     then ''<html><body><h1>404 Not Found</h1><p>'' @ message @ ''</p></body></html>''
                     else page)
      in setContentType (setBody (HttpResponse_new 404) content) ''text/html'')"

definition methodNotAllowed :: "string \<Rightarrow> HttpResponse" where
  "methodNotAllowed message =
     setContentType
       (setBody (HttpResponse_new 405)
          (''<html><body><h1>405 Method Not Allowed</h1><p>'' @ message @ ''</p></body></html>''))
       ''text/html''"

definition internalServerError :: "(string \<Rightarrow> string option) \<Rightarrow> string \<Rightarrow> HttpResponse" where
  "internalServerError read_file message =
     (let page = loadErrorPage read_file ''500'';
          content = (if page = ''<html><body><h1>500 Error</h1></body></html>''
                     then ''<html><body><h1>500 Internal Server Error</h1><p>'' @ message
                          @ ''</p></body></html>''
                     else page)
      in setContentType (setBody (HttpResponse_new 500) content) ''text/html'')"

definition notImplemented :: "string \<Rightarrow> HttpResponse" where
  "notImplemented message =
     setContentType
       (setBody (HttpResponse_new 501)
          (''<html><body><h1>501 Not Implemented</h1><p>'' @ message @ ''</p></body></html>''))
       ''text/html''"

definition payloadTooLarge :: "string \<Rightarrow> HttpResponse" where
  "payloadTooLarge message =
     setContentType
       (setBody (HttpResponse_new 413)
          (''<html><body><h1>413 Payload Too Large</h1><p>'' @ message @ ''</p></body></html>''))
       ''text/html''"


section \<open>The static file handler (StaticFileHandler.hpp, StaticFileHandler.cpp)\<close>

text \<open>
  The file system as the handlers see it: the outcome of \<open>stat\<close> on a path (none when
  the call fails), the content read from a file that can be opened, whether \<open>remove\<close>
  succeeds, the entries \<open>readdir\<close> lists for a directory that can be opened, and whether
  a file can be opened and written. The handlers compute a response from it; what a
  successful \<open>remove\<close> or write leaves on the disk is not followed further.
\<close>

datatype file_kind = RegularFile | Directory | OtherFile

record filesystem =
  fs_stat :: "string \<Rightarrow> file_kind option"
  fs_read :: "string \<Rightarrow> string option"
  fs_remove :: "string \<Rightarrow> bool"
  fs_readdir :: "string \<Rightarrow> string list option"
  fs_write :: "string \<Rightarrow> string \<Rightarrow> bool"

record StaticFileHandler =
  root_directory :: string
  directory_listing_enabled :: bool
  default_file :: string

definition getMimeType :: "string \<Rightarrow> string" where
  "getMimeType path =
     (case find_last_of path ''.'' of
        None \<Rightarrow> ''application/octet-stream''
      | Some dot_pos \<Rightarrow>
          (let ext = map tolower (substr_from path dot_pos)
           in if ext = ''.html'' \<or> ext = ''.htm'' then ''text/html''
              else if ext = ''.css'' then ''text/css''
              else if ext = ''.js'' then ''application/javascript''
              else if ext = ''.json'' then ''application/json''
              else if ext = ''.xml'' then ''application/xml''
              else if ext = ''.jpg'' \<or> ext = ''.jpeg'' then ''image/jpeg''
              else if ext = ''.png'' then ''image/png''
              else if ext = ''.gif'' then ''image/gif''
              else if ext = ''.svg'' then ''image/svg+xml''
              else if ext = ''.ico'' then ''image/x-icon''
              else if ext = ''.txt'' then ''text/plain''
              else if ext = ''.pdf'' then ''application/pdf''
              else if ext = ''.zip'' then ''application/zip''
              else if ext = ''.mp3'' then ''audio/mpeg''
              else if ext = ''.mp4'' then ''video/mp4''
              else if ext = ''.woff'' then ''font/woff''
              else if ext = ''.woff2'' then ''font/woff2''
              else if ext = ''.ttf'' then ''font/ttf''
              else ''application/octet-stream''))"

definition fileExists :: "filesystem \<Rightarrow> string \<Rightarrow> bool" where
  "fileExists fs path = (fs_stat fs path \<noteq> None)"

definition isDirectory :: "filesystem \<Rightarrow> string \<Rightarrow> bool" where
  "isDirectory fs path = (fs_stat fs path = Some Directory)"

text \<open>\<open>readFile\<close>: none when the file cannot be opened (\<open>success = false\<close>).\<close>

definition readFile :: "filesystem \<Rightarrow> string \<Rightarrow> string option" where
  "readFile fs path = fs_read fs path"

definition is_separator :: "char \<Rightarrow> bool" where
  "is_separator c = (c = CHR ''/'' \<or> c = CHR 0x5C)"

definition combinePaths :: "string \<Rightarrow> string \<Rightarrow> string" where
  "combinePaths base relative =
     (let result = (if base \<noteq> [] \<and> \<not> is_separator (last base) then base @ ''/'' else base);
          rel = (if relative \<noteq> [] \<and> is_separator (hd relative) then substr_from relative 1
                 else relative);
          rel' = map (\<lambda>c. if is_separator c then CHR ''/'' else c) rel
      in result @ rel')"

definition isPathSafe :: "string \<Rightarrow> bool" where
  "isPathSafe path = (str_find path ''..'' 0 = None)"

definition listing_style :: string where
  "listing_style =
     ''<style>''
     @ ''body { font-family: Arial, sans-serif; margin: 20px; }''
     @ ''h1 { color: #333; }''
     @ ''table { border-collapse: collapse; width: 100%; max-width: 800px; }''
     @ ''th, td { text-align: left; padding: 8px; border-bottom: 1px solid #ddd; }''
     @ ''th { background-color: #4CAF50; color: white; }''
     @ ''a { color: #0066cc; text-decoration: none; }''
     @ ''a:hover { text-decoration: underline; }''
     @ ''</style></head><body>''"

definition listing_row :: "filesystem \<Rightarrow> string \<Rightarrow> string \<Rightarrow> string" where
  "listing_row fs dir_path name =
     (if name \<noteq> ''.'' \<and> name \<noteq> ''..'' then
        (let is_dir = isDirectory fs (combinePaths dir_path name);
             link = (if is_dir then name @ ''/'' else name)
         in ''<tr><td><a href='' @ [CHR 0x22] @ link @ [CHR 0x22] @ ''>'' @ name
            @ (if is_dir then ''/'' else []) @ ''</a></td><td>''
            @ (if is_dir then ''Directory'' else ''File'') @ ''</td></tr>'')
      else [])"

definition generateDirectoryListing :: "filesystem \<Rightarrow> string \<Rightarrow> string \<Rightarrow> string" where
  "generateDirectoryListing fs dir_path uri_str =
     ''<html><head><title>Index of '' @ uri_str @ ''</title>'' @ listing_style
     @ ''<h1>Index of '' @ uri_str @ ''</h1>''
     @ ''<table><tr><th>Name</th><th>Type</th></tr>''
     @ (if uri_str \<noteq> ''/''
        then ''<tr><td><a href='' @ [CHR 0x22] @ ''..'' @ [CHR 0x22]
             @ ''>..</a></td><td>Directory</td></tr>''
        else [])
     @ (case fs_readdir fs dir_path of
          None \<Rightarrow> []
        | Some entries \<Rightarrow> concat (map (listing_row fs dir_path) entries))
     @ ''</table></body></html>''"

definition handleDelete :: "filesystem \<Rightarrow> StaticFileHandler \<Rightarrow> string \<Rightarrow> string \<Rightarrow> HttpResponse" where
  "handleDelete fs h uri_str file_path =
     (if \<not> fileExists fs file_path
      then notFound (fs_read fs) ''The requested resource was not found''
      else if uri_str = ''/'' \<or> uri_str = []
      then methodNotAllowed ''Cannot delete index file''
      else
        (let filename = (case find_last_of file_path ''/'' of
                           Some last_slash \<Rightarrow> substr_from file_path (last_slash + 1)
                         | None \<Rightarrow> file_path)
         in if filename = default_file h \<or> filename = ''index.html'' \<or> filename = ''index.htm''
            then methodNotAllowed ''Cannot delete index files''
            else if fs_remove fs file_path
            then ok ''<html><body><h1>200 OK</h1><p>File deleted successfully</p></body></html>''
                    ''text/html''
            else methodNotAllowed ''Permission denied: Cannot delete file''))"

definition serveDirectory :: "filesystem \<Rightarrow> StaticFileHandler \<Rightarrow> string \<Rightarrow> string \<Rightarrow> HttpResponse" where
  "serveDirectory fs h uri_str file_path =
     (let index_path = combinePaths file_path (default_file h);
          index_content = (if fileExists fs index_path \<and> \<not> isDirectory fs index_path
                           then readFile fs index_path else None)
      in case index_content of
           Some content \<Rightarrow> ok content (getMimeType index_path)
         | None \<Rightarrow>
             if directory_listing_enabled h
             then ok (generateDirectoryListing fs file_path uri_str) ''text/html''
             else notFound (fs_read fs) ''Directory listing is disabled'')"

definition handleRequest :: "filesystem \<Rightarrow> StaticFileHandler \<Rightarrow> HttpRequest \<Rightarrow> HttpResponse" where
  "handleRequest fs h request =
     (if \<not> isPathSafe (uri request) then badRequest ''Invalid path''
      else
        (let file_path = combinePaths (root_directory h) (uri request)
         in if method request = DELETE then handleDelete fs h (uri request) file_path
            else if method request \<noteq> GET \<and> method request \<noteq> HEAD
            then methodNotAllowed ''Only GET and HEAD are allowed for static files''
            else if \<not> fileExists fs file_path
            then notFound (fs_read fs) ''The requested resource was not found''
            else if isDirectory fs file_path then serveDirectory fs h (uri request) file_path
            else (case readFile fs file_path of
                    None \<Rightarrow> internalServerError (fs_read fs) ''Failed to read file''
                  | Some content \<Rightarrow> ok content (getMimeType file_path))))"


section \<open>The upload handler (UploadHandler.hpp, UploadHandler.cpp)\<close>

record UploadedFile =
  filename :: string
  content_type :: string
  content :: string
  file_size :: nat

record UploadHandler =
  upload_directory :: string
  max_upload_size :: nat

definition sanitizeFilename :: "string \<Rightarrow> string" where
  "sanitizeFilename name =
     (let safe_name = (case find_last_of name [CHR ''/'', CHR 0x5C] of
                         Some last_slash \<Rightarrow> substr_from name (last_slash + 1)
                       | None \<Rightarrow> name);
          result = map (\<lambda>c. if isalnum c \<or> c = CHR ''.'' \<or> c = CHR ''_'' \<or> c = CHR ''-''
                             then c else CHR ''_'') safe_name
      in if result = [] \<or> result = ''.'' \<or> result = ''..'' then ''uploaded_file'' else result)"

definition saveFile :: "filesystem \<Rightarrow> UploadHandler \<Rightarrow> string \<Rightarrow> string \<Rightarrow> bool" where
  "saveFile fs up name bytes =
     (let dir = upload_directory up;
          full_path = (if dir \<noteq> [] \<and> last dir \<noteq> CHR ''/'' then dir @ ''/'' else dir) @ name
      in fs_write fs full_path bytes)"

text \<open>The file record built from the header block and the content of one part.\<close>

definition part_filename :: "string \<Rightarrow> string" where
  "part_filename headers_section =
     (case str_find headers_section ''Content-Disposition:'' 0 of
        None \<Rightarrow> []
      | Some cd_pos \<Rightarrow>
          (let cd_line = (case str_find headers_section CRLF cd_pos of
                            None \<Rightarrow> substr_from headers_section cd_pos
                          | Some line_end \<Rightarrow> substr headers_section cd_pos (line_end - cd_pos))
           in case str_find cd_line (''filename='' @ [CHR 0x22]) 0 of
                None \<Rightarrow> []
              | Some p \<Rightarrow>
                  (let filename_pos = p + 10
                   in case str_find cd_line [CHR 0x22] filename_pos of
                        None \<Rightarrow> []
                      | Some filename_end \<Rightarrow>
                          substr cd_line filename_pos (filename_end - filename_pos))))"

definition part_content_type :: "string \<Rightarrow> string" where
  "part_content_type headers_section =
     (case str_find headers_section ''Content-Type:'' 0 of
        None \<Rightarrow> ''application/octet-stream''
      | Some ct_pos \<Rightarrow>
          (let ct_line = (case str_find headers_section CRLF ct_pos of
                            None \<Rightarrow> substr_from headers_section (ct_pos + 13)
                          | Some line_end \<Rightarrow>
                              substr headers_section (ct_pos + 13) (line_end - ct_pos - 13))
           in case (find_first_not_of ct_line [CHR '' '', CHR 0x09], find_last_not_of ct_line ws4) of
                (Some first_pos, Some last_pos) \<Rightarrow> substr ct_line first_pos (last_pos - first_pos + 1)
              | _ \<Rightarrow> ''application/octet-stream''))"

definition make_file :: "string \<Rightarrow> string \<Rightarrow> UploadedFile" where
  "make_file headers_section bytes =
     \<lparr> filename = part_filename headers_section,
       content_type = part_content_type headers_section,
       content = bytes, file_size = length bytes \<rparr>"

text \<open>
  The loop of \<open>parseMultipartFormData\<close>, from position \<open>pos\<close> with the files found so
  far. Each pass that goes round again moves \<open>pos\<close> to a later boundary.
\<close>

function parseParts :: "string \<Rightarrow> string \<Rightarrow> nat \<Rightarrow> UploadedFile list \<Rightarrow> UploadedFile list" where
  "parseParts bytes delimiter pos files =
     (if \<not> pos < length bytes then files
      else
        (case str_find bytes delimiter pos of
           None \<Rightarrow> files
         | Some boundary_pos \<Rightarrow>
             if boundary_pos + length delimiter + 2 \<le> length bytes
                \<and> substr bytes (boundary_pos + length delimiter) 2 = ''--''
             then files
             else
               (case str_find bytes (CRLF @ CRLF)
                       (if boundary_pos + length delimiter + 2 \<le> length bytes
                           \<and> substr bytes (boundary_pos + length delimiter) 2 = CRLF
                        then boundary_pos + length delimiter + 2
                        else boundary_pos + length delimiter) of
                  None \<Rightarrow> files
                | Some headers_end \<Rightarrow>
                    (case str_find bytes delimiter (headers_end + 4) of
                       None \<Rightarrow> files
                     | Some next_boundary \<Rightarrow>
                         if next_boundary - 2 \<le> headers_end + 4 then files
                         else
                           parseParts bytes delimiter next_boundary
                             (let pos2 = (if boundary_pos + length delimiter + 2 \<le> length bytes
                                             \<and> substr bytes (boundary_pos + length delimiter) 2 = CRLF
                                          then boundary_pos + length delimiter + 2
                                          else boundary_pos + length delimiter);
                                  file = make_file (substr bytes pos2 (headers_end - pos2))
                                           (substr bytes (headers_end + 4)
                                              (next_boundary - 2 - (headers_end + 4)))
                              in if filename file \<noteq> [] then files @ [file] else files)))))"
  by pat_completeness auto
termination
proof (relation "measure (\<lambda>(bytes, delimiter, pos, files). length bytes - pos)", goal_cases)
  case 1
  show ?case by simp
next
  case (2 bytes delimiter pos files boundary_pos headers_end next_boundary)
  from str_find_bounds(1)[OF 2(2)] have "pos \<le> boundary_pos" .
  moreover from str_find_bounds(1)[OF 2(4)]
  have "boundary_pos + length delimiter \<le> headers_end" by (simp split: if_splits)
  ultimately have "pos < next_boundary" using 2(6) by simp
  with 2(1) show ?case by simp
qed

declare parseParts.simps [simp del]

definition parseMultipartFormData :: "string \<Rightarrow> string \<Rightarrow> UploadedFile list" where
  "parseMultipartFormData bytes boundary_str = parseParts bytes (''--'' @ boundary_str) 0 []"

definition upload_summary :: "string list \<Rightarrow> string" where
  "upload_summary saved_files =
     ''<html><body><h1>Upload Successful</h1>''
     @ ''<p>Uploaded '' @ show_nat (length saved_files) @ '' file(s):</p><ul>''
     @ concat (map (\<lambda>name. ''<li>'' @ name @ ''</li>'') saved_files)
     @ ''</ul></body></html>''"

definition handleUpload :: "filesystem \<Rightarrow> UploadHandler \<Rightarrow> HttpRequest \<Rightarrow> HttpResponse" where
  "handleUpload fs up request =
     (if method request \<noteq> POST then methodNotAllowed ''Only POST is allowed for uploads''
      else if max_upload_size up < content_length request
      then payloadTooLarge (''Upload size exceeds maximum allowed size of ''
                            @ show_nat (max_upload_size up) @ '' bytes'')
      else if boundary request = []
      then badRequest ''Missing boundary in multipart/form-data''
      else
        (let files = parseMultipartFormData (body request) (boundary request)
         in if files = [] then badRequest ''Failed to parse multipart/form-data''
            else
              (let saved_files =
                     map fst (filter snd
                       (map (\<lambda>f. (sanitizeFilename (filename f),
                                   saveFile fs up (sanitizeFilename (filename f)) (content f)))
                          files))
               in if saved_files = []
                  then internalServerError (fs_read fs) ''Failed to save uploaded files''
                  else ok (upload_summary saved_files) ''text/html'')))"


section \<open>The routing table (Config.cpp)\<close>

text \<open>
  Modelled from the spec: \<open>Config.hpp\<close>, which declares \<open>LocationConfig\<close> and
  \<open>ServerConfig\<close>, is not among the sources. The fields are those \<open>Config.cpp\<close> and
  \<open>Server.cpp\<close> read and write, which are the ones the specification lists for a
  location: path prefix, root, allowed methods, upload directory, CGI extension map,
  autoindex flag and index file.
\<close>

record LocationConfig =
  path :: string
  root :: string
  index :: string
  autoindex :: bool
  methods :: "string list"
  cgi_extensions :: "(string \<times> string) list"
  upload_path :: string

record ServerConfig =
  port :: int
  host :: string
  server_name :: string
  max_body_size :: nat
  locations :: "LocationConfig list"
  error_pages :: "(int \<times> string) list"

text \<open>The configuration \<open>Config::parse\<close> builds: one server with one location.\<close>

definition root_location :: LocationConfig where
  "root_location =
     \<lparr> path = ''/'', root = ''./www'', index = ''index.html'', autoindex = False,
       methods = [''GET'', ''POST'', ''DELETE''], cgi_extensions = [], upload_path = [] \<rparr>"

definition default_config :: ServerConfig where
  "default_config =
     \<lparr> port = 8080, host = ''0.0.0.0'', server_name = ''webserv'', max_body_size = 1048576,
       locations = [root_location],
       error_pages = [(404, ''./www/404.html''), (500, ''./www/500.html'')] \<rparr>"

text \<open>
  The loop of \<open>Config::findLocation\<close> with its two variables, the best match so far and
  the length of its path. \<open>uri.find(loc.path) == 0\<close> is \<open>str_find uri (path loc) 0 = Some 0\<close>.
\<close>

fun findLocation_loop ::
  "LocationConfig list \<Rightarrow> string \<Rightarrow> LocationConfig option \<Rightarrow> nat \<Rightarrow> LocationConfig option" where
  "findLocation_loop [] uri_str best_match best_match_len = best_match"
| "findLocation_loop (loc # locs) uri_str best_match best_match_len =
     (if str_find uri_str (path loc) 0 = Some 0 \<and> best_match_len < length (path loc)
      then findLocation_loop locs uri_str (Some loc) (length (path loc))
      else findLocation_loop locs uri_str best_match best_match_len)"

definition findLocation :: "string \<Rightarrow> ServerConfig \<Rightarrow> LocationConfig option" where
  "findLocation uri_str server = findLocation_loop (locations server) uri_str None 0"

section \<open>The CGI gateway and the router (Server.cpp)\<close>

text \<open>
  What the operating system does for one CGI call: whether the two pipes and the fork
  succeed, and what the child writes to its standard output before the parent stops
  reading (end of output, a read error, or five seconds without data), given the
  interpreter, the argument vector, the environment and the bytes on its standard input;
  none when \<open>execve\<close> fails, in which case the child itself writes a status line.
\<close>

record process_env =
  pipe_ok :: bool
  fork_ok :: bool
  exec_output :: "string \<Rightarrow> string list \<Rightarrow> string list \<Rightarrow> string \<Rightarrow> string option"

definition child_output :: "process_env \<Rightarrow> string \<Rightarrow> string list \<Rightarrow> string list \<Rightarrow> string \<Rightarrow> string" where
  "child_output penv interpreter argv envp input =
     (case exec_output penv interpreter argv envp input of
        Some out \<Rightarrow> out
      | None \<Rightarrow> ''Status: 500'' @ CRLF @ CRLF @ ''CGI exec failed'')"

text \<open>The lines \<open>std::getline\<close> reads from a string stream, one after the other.\<close>

function getlines :: "string \<Rightarrow> string list" where
  "getlines s =
     (if s = [] then []
      else if dropWhile (\<lambda>c. c \<noteq> CHR 0x0A) s = [] then [s]
      else takeWhile (\<lambda>c. c \<noteq> CHR 0x0A) s # getlines (tl (dropWhile (\<lambda>c. c \<noteq> CHR 0x0A) s)))"
  by pat_completeness auto
termination
proof (relation "measure length", goal_cases)
  case 1
  show ?case by simp
next
  case (2 s)
  have "length (dropWhile (\<lambda>c. c \<noteq> CHR 0x0A) s) \<le> length s" by (rule length_dropWhile_le)
  with 2 show ?case by (cases "dropWhile (\<lambda>c. c \<noteq> CHR 0x0A) s") auto
qed

declare getlines.simps [simp del]

text \<open>
  \<open>atoi\<close>: white space, an optional sign, decimal digits; the value of \<open>strtol\<close> on a
  64-bit \<open>long\<close>, narrowed to a 32-bit \<open>int\<close>.
\<close>

definition atoi :: "string \<Rightarrow> int" where
  "atoi s =
     (let s' = dropWhile isspace s;
          neg = (s' \<noteq> [] \<and> hd s' = CHR ''-'');
          t = (if s' \<noteq> [] \<and> (hd s' = CHR ''-'' \<or> hd s' = CHR ''+'') then tl s' else s');
          v = digits_value (takeWhile isdigit t);
          l = (if neg then max (- (2 ^ 63)) (- v) else min (2 ^ 63 - 1) v)
      in (l + 2 ^ 31) mod 2 ^ 32 - 2 ^ 31)"

text \<open>
  One pass of the loop over the CGI header lines, on the pair of the content type and the
  response code read so far.
\<close>

definition cgi_header_line :: "string \<times> int \<Rightarrow> string \<Rightarrow> string \<times> int" where
  "cgi_header_line acc hline0 =
     (let hline = (if hline0 \<noteq> [] \<and> last hline0 = CHR 0x0D then butlast hline0 else hline0)
      in if hline = [] then acc
         else
           (case find_char hline (CHR '':'') of
              None \<Rightarrow> acc
            | Some colon \<Rightarrow>
                (let hname = substr hline 0 colon;
                     hval0 = substr_from hline (colon + 1);
                     hval = (case find_first_not_of hval0 [CHR '' '', CHR 0x09] of
                               Some vs \<Rightarrow> substr_from hval0 vs
                             | None \<Rightarrow> hval0);
                     hn_lower = map tolower hname
                 in if hn_lower = ''content-type'' then (hval, snd acc)
                    else if hn_lower = ''status'' then (fst acc, atoi hval)
                    else acc)))"

text \<open>
  The CGI output split into its parts: the body, the content type and the response code
  the code computes from the header block. In \<open>_executeCgi\<close> the response is then built
  by \<open>HttpResponse::ok\<close>; the block under \<open>if (response_code != 200)\<close> only writes the
  code into a local stream that is dropped, so the code read from the header block has no
  effect on the response.
\<close>

definition parse_cgi_output :: "string \<Rightarrow> string \<times> string \<times> int" where
  "parse_cgi_output cgi_output =
     (let sep = (case str_find cgi_output (CRLF @ CRLF) 0 of
                   Some p \<Rightarrow> Some (p, 4)
                 | None \<Rightarrow>
                     (case str_find cgi_output [CHR 0x0A, CHR 0x0A] 0 of
                        Some p \<Rightarrow> Some (p, 2)
                      | None \<Rightarrow> None))
      in case sep of
           None \<Rightarrow> (cgi_output, ''text/html'', 200)
         | Some (p, sep_len) \<Rightarrow>
             (let headers_raw = substr cgi_output 0 p;
                  response_body = substr_from cgi_output (p + sep_len);
                  (ctype, response_code) =
                     foldl cgi_header_line (''text/html'', 200) (getlines headers_raw)
              in (response_body, ctype, response_code)))"

definition cgi_environment :: "string \<Rightarrow> HttpRequest \<Rightarrow> string list" where
  "cgi_environment script_path request =
     [''REQUEST_METHOD='' @ getMethodString request,
      ''SCRIPT_FILENAME='' @ script_path,
      ''SCRIPT_NAME='' @ uri request,
      ''PATH_INFO='' @ uri request,
      ''QUERY_STRING='' @ (case find_char (uri request) (CHR ''?'') of
                             Some qpos \<Rightarrow> substr_from (uri request) (qpos + 1)
                           | None \<Rightarrow> [])]
     @ (if method request = POST
        then [''CONTENT_LENGTH='' @ show_nat (length (body request)),
              ''CONTENT_TYPE='' @ (if getHeader request ''Content-Type'' = []
                                    then ''application/x-www-form-urlencoded''
                                    else getHeader request ''Content-Type'')]
        else [])
     @ [''SERVER_PROTOCOL=HTTP/1.1'', ''SERVER_NAME=localhost'', ''SERVER_PORT=8080'',
        ''GATEWAY_INTERFACE=CGI/1.1'', ''REDIRECT_STATUS=200'']"

definition executeCgi ::
  "filesystem \<Rightarrow> process_env \<Rightarrow> string \<Rightarrow> string \<Rightarrow> HttpRequest \<Rightarrow> LocationConfig \<Rightarrow> HttpResponse" where
  "executeCgi fs penv script_path interpreter request location =
     (if fs_stat fs script_path \<noteq> Some RegularFile
      then notFound (fs_read fs) (''CGI script not found: '' @ script_path)
      else if \<not> pipe_ok penv then internalServerError (fs_read fs) ''CGI pipe failed''
      else if \<not> fork_ok penv then internalServerError (fs_read fs) ''CGI fork failed''
      else
        (let cgi_output = child_output penv interpreter [interpreter, script_path]
                            (cgi_environment script_path request) (body request)
         in if cgi_output = [] then internalServerError (fs_read fs) ''CGI produced no output''
            else
              (let (response_body, ctype, response_code) = parse_cgi_output cgi_output;
                   resp = ok response_body ctype
               in resp)))"

definition buildResponse ::
  "ServerConfig \<Rightarrow> filesystem \<Rightarrow> process_env \<Rightarrow> HttpRequest \<Rightarrow> HttpResponse" where
  "buildResponse server_config fs penv request =
     (case findLocation (uri request) server_config of
        None \<Rightarrow> notFound (fs_read fs) ''Location not configured''
      | Some location \<Rightarrow>
          if getMethodString request \<notin> set (methods location)
          then methodNotAllowed ''Method not allowed for this location''
          else
            (let path_part = (case find_char (uri request) (CHR ''?'') of
                                Some qpos \<Rightarrow> substr (uri request) 0 qpos
                              | None \<Rightarrow> uri request);
                 cgi = (if cgi_extensions location \<noteq> []
                        then (case find_last_of path_part ''.'' of
                                None \<Rightarrow> None
                              | Some dot_pos \<Rightarrow>
                                  map_of (cgi_extensions location) (substr_from path_part dot_pos))
                        else None);
                 handler = \<lparr> root_directory = root location,
                             directory_listing_enabled = autoindex location,
                             default_file = index location \<rparr>
             in case cgi of
                  Some interpreter \<Rightarrow>
                    executeCgi fs penv (root location @ ''/'' @ path_part) interpreter request location
                | None \<Rightarrow>
                    if method request = GET \<or> method request = DELETE
                    then handleRequest fs handler request
                    else if method request = HEAD then handleRequest fs handler request
                    else if method request = POST
                    then handleUpload fs
                           \<lparr> upload_directory =
                                (if upload_path location = [] then ''./uploads''
                                 else upload_path location),
                              max_upload_size = max_body_size server_config \<rparr>
                           request
                    else if method request = PUT
                    then ok (''<html><body><h1>201 Created</h1>''
                             @ ''<p>Resource created/updated via PUT</p></body></html>'') ''text/html''
                    else badRequest ''Method not implemented''))"

section \<open>Data arriving on a client socket (Server.cpp)\<close>

text \<open>
  A connection is the request being parsed and the bytes queued for the client
  (\<open>_output_buffers\<close>). \<open>handleClientData\<close> is \<open>Server::_handleClientData\<close> on what
  \<open>recv\<close> delivered (at most \<open>BUFFER_SIZE\<close>, 8192 bytes, in one call): none for a failed
  read and the empty string for a closed peer, which both remove the client (the result
  none); otherwise the connection after the call.
\<close>

record connection =
  conn_request :: HttpRequest
  conn_output :: string

definition sendToClient :: "connection \<Rightarrow> string \<Rightarrow> connection" where
  "sendToClient conn bytes = conn\<lparr> conn_output := conn_output conn @ bytes \<rparr>"

text \<open>
  The response \<open>_handleClientData\<close> chooses for the error code of a request whose
  parsing ended in ERROR.
\<close>

definition parse_error_response :: "int \<Rightarrow> HttpResponse" where
  "parse_error_response err =
     (if err = 405 then methodNotAllowed ''Method not allowed''
      else if err = 505 then notImplemented ''HTTP Version Not Supported''
      else badRequest ''Bad Request'')"

definition handleClientData ::
  "ServerConfig \<Rightarrow> filesystem \<Rightarrow> process_env \<Rightarrow> connection \<Rightarrow> string option \<Rightarrow> connection option" where
  "handleClientData server_config fs penv conn received =
     (case received of
        None \<Rightarrow> None
      | Some bytes \<Rightarrow>
          if bytes = [] then None
          else
            (let (request, complete) = parse (conn_request conn) bytes
             in if complete
                then Some ((sendToClient conn (build (buildResponse server_config fs penv request)))
                            \<lparr> conn_request := HttpRequest_new \<rparr>)
                else if state request = ERROR
                then Some ((sendToClient conn (build (parse_error_response (error_code request))))
                            \<lparr> conn_request := HttpRequest_new \<rparr>)
                else Some (conn\<lparr> conn_request := request \<rparr>)))"

section \<open>Properties of the parser\<close>

text \<open>
  Claim C9. Once the state of a request is COMPLETE or ERROR, a call of \<open>parse\<close> with any
  data leaves the whole object as it is (every field, the buffered bytes included) and
  returns true exactly when the state is COMPLETE; so does any sequence of such calls.
  Only \<open>reset\<close> takes the object out of that state: it puts it back to REQUEST_LINE.
\<close>

theorem parse_terminal_immutable:
  assumes "state r = COMPLETE \<or> state r = ERROR"
  shows "parse r data = (r, state r = COMPLETE)
       \<and> fold (\<lambda>d q. fst (parse q d)) chunks r = r
       \<and> state (reset r) = REQUEST_LINE"
proof -
  have one: "parse r d = (r, state r = COMPLETE)" for d
    using assms by (simp add: parse_def)
  have "fold (\<lambda>d q. fst (parse q d)) chunks r = r"
    by (induction chunks) (simp_all add: one)
  moreover have "state (reset r) = REQUEST_LINE"
    by (simp add: reset_def)
  ultimately show ?thesis using one by simp
qed

theorem parse_terminal_immutable_witness:
  "(state (fst (parse HttpRequest_new (''GET / HTTP/1.1'' @ CRLF @ CRLF))) = COMPLETE
      \<or> state (fst (parse HttpRequest_new (''GET / HTTP/1.1'' @ CRLF @ CRLF))) = ERROR)
   \<and> parse (fst (parse HttpRequest_new (''GET / HTTP/1.1'' @ CRLF @ CRLF))) ''DELETE /x''
       = (fst (parse HttpRequest_new (''GET / HTTP/1.1'' @ CRLF @ CRLF)), True)"
proof -
  have c: "state (fst (parse HttpRequest_new (''GET / HTTP/1.1'' @ CRLF @ CRLF))) = COMPLETE"
    by code_simp
  then have h: "state (fst (parse HttpRequest_new (''GET / HTTP/1.1'' @ CRLF @ CRLF))) = COMPLETE
      \<or> state (fst (parse HttpRequest_new (''GET / HTTP/1.1'' @ CRLF @ CRLF))) = ERROR"
    by simp
  from parse_terminal_immutable [OF h, of "''DELETE /x''"] c h show ?thesis
    by simp
qed

subsection \<open>The request line\<close>

text \<open>
  The white-space separated tokens of a line, as the specification speaks of them: runs of
  characters other than white space, in order.
\<close>

lemma ws_tokens_termination:
  assumes "dropWhile P s \<noteq> []"
  shows "length (dropWhile (\<lambda>c. \<not> P c) (dropWhile P s)) < length s"
proof -
  from assms obtain y ys where y: "dropWhile P s = y # ys"
    by (cases "dropWhile P s") auto
  have "\<not> P y" using hd_dropWhile[of P s] assms y by simp
  then have "dropWhile (\<lambda>c. \<not> P c) (y # ys) = dropWhile (\<lambda>c. \<not> P c) ys" by simp
  moreover have "length (dropWhile (\<lambda>c. \<not> P c) ys) \<le> length ys" by (rule length_dropWhile_le)
  moreover have "length (y # ys) \<le> length s" using length_dropWhile_le[of P s] y by simp
  ultimately show ?thesis using y by simp
qed

function ws_tokens :: "string \<Rightarrow> string list" where
  "ws_tokens s =
     (if dropWhile isspace s = [] then []
      else takeWhile (\<lambda>c. \<not> isspace c) (dropWhile isspace s)
           # ws_tokens (dropWhile (\<lambda>c. \<not> isspace c) (dropWhile isspace s)))"
  by pat_completeness auto
termination
  by (relation "measure length") (auto simp: ws_tokens_termination)

declare ws_tokens.simps [simp del]

text \<open>
  The objects the parser works on: a request as constructed, after \<open>reset\<close>, after
  \<open>parse\<close> has appended a chunk, and after each pass through the loop of \<open>parse\<close>.
\<close>

inductive parser_state :: "HttpRequest \<Rightarrow> bool" where
  constructed: "parser_state HttpRequest_new"
| after_reset: "parser_state r \<Longrightarrow> parser_state (reset r)"
| appended: "parser_state r \<Longrightarrow> \<not> terminal r \<Longrightarrow> parser_state (r\<lparr> raw_data := raw_data r @ data \<rparr>)"
| went_round: "parser_state r \<Longrightarrow> \<not> terminal r \<Longrightarrow> loop_body r = Inr r' \<Longrightarrow> parser_state r'"
| returned: "parser_state r \<Longrightarrow> \<not> terminal r \<Longrightarrow> loop_body r = Inl (r', b) \<Longrightarrow> parser_state r'"

lemma loop_body_not_back:
  assumes "loop_body r = Inr r'" "\<not> terminal r"
  shows "state r' \<noteq> REQUEST_LINE"
proof (cases "state r")
  case REQUEST_LINE
  with assms obtain l k where "r' = parseRequestLine (r\<lparr>bytes_parsed := k\<rparr>) l"
    by (auto simp: loop_body_def Let_def split: option.splits)
  then show ?thesis using parseRequestLine_state[of "r\<lparr>bytes_parsed := k\<rparr>" l] by auto
next
  case HEADERS
  with assms obtain l k where "r' = endOfHeaders (r\<lparr>bytes_parsed := k\<rparr>) \<or> r' = parseHeader (r\<lparr>bytes_parsed := k\<rparr>) l"
    by (auto simp: loop_body_def Let_def split: option.splits if_splits)
  then show ?thesis using parseHeader_state[of "r\<lparr>bytes_parsed := k\<rparr>" l] endOfHeaders_state[of "r\<lparr>bytes_parsed := k\<rparr>"] HEADERS
    by auto
next
  case BODY
  with assms show ?thesis by (auto simp: loop_body_def Let_def split: if_splits)
qed (use assms in \<open>auto simp: terminal_def\<close>)

lemma loop_body_return_state:
  assumes "loop_body r = Inl (r', b)"
  shows "r' = r \<or> state r' = ERROR"
  using assms by (auto simp: loop_body_def Let_def split: option.splits if_splits)

definition fresh :: "HttpRequest \<Rightarrow> bool" where
  "fresh r = (uri r = [] \<and> http_version r = [] \<and> query_string r = [] \<and> error_code r = 0)"

lemma parser_state_request_line_fresh:
  "parser_state r \<Longrightarrow> state r = REQUEST_LINE \<Longrightarrow> fresh r"
proof (induction rule: parser_state.induct)
  case constructed
  show ?case by (simp add: fresh_def HttpRequest_new_def)
next
  case (after_reset r)
  show ?case by (simp add: fresh_def reset_def)
next
  case (appended r data)
  then show ?case by (simp add: fresh_def)
next
  case (went_round r r')
  with loop_body_not_back show ?case by blast
next
  case (returned r r' b)
  with loop_body_return_state[OF returned.hyps(3)] show ?case by auto
qed

lemma extract_word_tokens:
  "fst (extract_word old s) = (case ws_tokens s of [] \<Rightarrow> old | t # ts \<Rightarrow> t)"
  "ws_tokens (snd (extract_word old s)) = tl (ws_tokens s)"
  by (subst ws_tokens.simps[of s], simp add: extract_word_def Let_def ws_tokens.simps[of "[]"])+


lemma ws_tokens_nonempty: "t \<in> set (ws_tokens s) \<Longrightarrow> t \<noteq> []"
proof (induction s rule: ws_tokens.induct)
  case (1 s)
  show ?case
  proof (cases "dropWhile isspace s = []")
    case True
    with "1.prems" show ?thesis by (simp add: ws_tokens.simps[of s])
  next
    case False
    then have "\<not> isspace (hd (dropWhile isspace s))" using hd_dropWhile[of isspace s] by simp
    with False have ne: "takeWhile (\<lambda>c. \<not> isspace c) (dropWhile isspace s) \<noteq> []"
      by (cases "dropWhile isspace s") auto
    have "ws_tokens s = takeWhile (\<lambda>c. \<not> isspace c) (dropWhile isspace s)
            # ws_tokens (dropWhile (\<lambda>c. \<not> isspace c) (dropWhile isspace s))"
      using False by (subst ws_tokens.simps) (simp del: dropWhile_eq_Nil_conv)
    with "1.prems"
    have "t = takeWhile (\<lambda>c. \<not> isspace c) (dropWhile isspace s)
          \<or> t \<in> set (ws_tokens (dropWhile (\<lambda>c. \<not> isspace c) (dropWhile isspace s)))"
      by auto
    with ne "1.IH"[OF False] show ?thesis by auto
  qed
qed

lemma parseQueryString_split:
  "uri (parseQueryString r) = takeWhile (\<lambda>c. c \<noteq> CHR ''?'') (uri r)"
  "CHR ''?'' \<in> set (uri r) \<Longrightarrow>
     query_string (parseQueryString r) = drop 1 (dropWhile (\<lambda>c. c \<noteq> CHR ''?'') (uri r))"
  "CHR ''?'' \<notin> set (uri r) \<Longrightarrow> query_string (parseQueryString r) = query_string r"
  "state (parseQueryString r) = state r"
  "error_code (parseQueryString r) = error_code r"
  "method (parseQueryString r) = method r"
  "http_version (parseQueryString r) = http_version r"
proof -
  have t: "take (length (takeWhile (\<lambda>c. c \<noteq> CHR ''?'') (uri r))) (uri r)
           = takeWhile (\<lambda>c. c \<noteq> CHR ''?'') (uri r)"
    by (rule takeWhile_eq_take[symmetric])
  have d: "drop (Suc (length (takeWhile (\<lambda>c. c \<noteq> CHR ''?'') (uri r)))) (uri r)
           = drop 1 (dropWhile (\<lambda>c. c \<noteq> CHR ''?'') (uri r))"
    by (simp add: dropWhile_eq_drop)
  show "uri (parseQueryString r) = takeWhile (\<lambda>c. c \<noteq> CHR ''?'') (uri r)"
  proof (cases "CHR ''?'' \<in> set (uri r)")
    case True
    with t show ?thesis by (simp add: parseQueryString_def find_char_def substr_def)
  next
    case False
    then have e: "uri (parseQueryString r) = uri r"
      by (simp add: parseQueryString_def find_char_def)
    from False have "takeWhile (\<lambda>c. c \<noteq> CHR ''?'') (uri r) = uri r" by auto
    then show ?thesis unfolding e by (rule sym)
  qed
  show "CHR ''?'' \<in> set (uri r) \<Longrightarrow>
     query_string (parseQueryString r) = drop 1 (dropWhile (\<lambda>c. c \<noteq> CHR ''?'') (uri r))"
    using d by (simp add: parseQueryString_def find_char_def substr_from_def)
  show "CHR ''?'' \<notin> set (uri r) \<Longrightarrow> query_string (parseQueryString r) = query_string r"
    by (simp add: parseQueryString_def find_char_def)
  show "state (parseQueryString r) = state r" "error_code (parseQueryString r) = error_code r"
    "method (parseQueryString r) = method r" "http_version (parseQueryString r) = http_version r"
    by (simp_all add: parseQueryString_def split: option.splits)
qed

definition known_method :: "string \<Rightarrow> bool" where
  "known_method t = (t \<in> set [''GET'', ''POST'', ''DELETE'', ''PUT'', ''HEAD''])"

lemma stringToMethod_UNKNOWN: "(stringToMethod t = UNKNOWN) = (\<not> known_method t)"
  by (simp add: stringToMethod_def known_method_def)

lemma parseRequestLine_tokens:
  "parseRequestLine r line =
     (let ts = ws_tokens line;
          r1 = r\<lparr> uri := (case tl ts of [] \<Rightarrow> uri r | t # x \<Rightarrow> t),
                  http_version := (case tl (tl ts) of [] \<Rightarrow> http_version r | t # x \<Rightarrow> t),
                  method := stringToMethod (case ts of [] \<Rightarrow> [] | t # x \<Rightarrow> t) \<rparr>
      in if method r1 = UNKNOWN then r1\<lparr> error_code := 405, state := ERROR \<rparr>
         else if uri r1 = [] \<or> http_version r1 = []
         then r1\<lparr> error_code := 400, state := ERROR \<rparr>
         else if http_version r1 \<noteq> ''HTTP/1.1'' \<and> http_version r1 \<noteq> ''HTTP/1.0''
         then r1\<lparr> error_code := 505, state := ERROR \<rparr>
         else (parseQueryString r1)\<lparr> state := HEADERS \<rparr>)"
  unfolding parseRequestLine_def Let_def case_prod_beta extract_word_tokens ..

text \<open>
  Claim C4. The request line is fed to \<open>parseRequestLine\<close> by the loop of \<open>parse\<close> when
  the state is REQUEST_LINE, after the read position has been moved past the line. With
  \<open>ts\<close> the white-space separated tokens of the line: a first token that is missing or
  not one of GET, POST, DELETE, PUT, HEAD gives error 405 and state ERROR; otherwise fewer
  than three tokens (URI or version missing) give error 400; otherwise a version other than
  HTTP/1.0 and HTTP/1.1 gives error 505; otherwise the state becomes HEADERS with no error,
  the URI is the second token up to its first question mark and the query string is what
  follows that question mark.
\<close>

theorem parseRequestLine_cases:
  assumes "parser_state r" and "state r = REQUEST_LINE"
  shows "let ts = ws_tokens line; r' = parseRequestLine (r\<lparr> bytes_parsed := k \<rparr>) line in
     (if ts = [] \<or> \<not> known_method (hd ts) then error_code r' = 405 \<and> state r' = ERROR
      else if length ts < 3 then error_code r' = 400 \<and> state r' = ERROR
      else if ts ! 2 \<noteq> ''HTTP/1.1'' \<and> ts ! 2 \<noteq> ''HTTP/1.0''
      then error_code r' = 505 \<and> state r' = ERROR
      else state r' = HEADERS \<and> error_code r' = 0
           \<and> method r' = stringToMethod (hd ts) \<and> http_version r' = ts ! 2
           \<and> uri r' = takeWhile (\<lambda>c. c \<noteq> CHR ''?'') (ts ! 1)
           \<and> query_string r' = drop 1 (dropWhile (\<lambda>c. c \<noteq> CHR ''?'') (ts ! 1)))"
proof -
  from parser_state_request_line_fresh[OF assms]
  have f: "uri r = []" "http_version r = []" "query_string r = []" "error_code r = 0"
    by (simp_all add: fresh_def)
  have unk: "\<not> known_method []" by (simp add: known_method_def)
  show ?thesis
  proof (cases "ws_tokens line")
    case Nil
    then show ?thesis
      by (simp add: parseRequestLine_tokens Let_def stringToMethod_UNKNOWN unk)
  next
    case (Cons m ts1)
    note c1 = this
    show ?thesis
    proof (cases ts1)
      case Nil
      with c1 f show ?thesis
        by (simp add: parseRequestLine_tokens Let_def stringToMethod_UNKNOWN)
    next
      case (Cons u ts2)
      note c2 = this
      show ?thesis
      proof (cases ts2)
        case Nil
        with c1 c2 f show ?thesis
          by (simp add: parseRequestLine_tokens Let_def stringToMethod_UNKNOWN)
      next
        case (Cons v ts3)
        with c1 c2 have "u \<in> set (ws_tokens line)" "v \<in> set (ws_tokens line)" by simp_all
        then have ne: "u \<noteq> []" "v \<noteq> []" using ws_tokens_nonempty by blast+
        have q: "drop 1 (dropWhile (\<lambda>c. c \<noteq> CHR ''?'') u) = []" if "CHR ''?'' \<notin> set u"
        proof -
          from that have "dropWhile (\<lambda>c. c \<noteq> CHR ''?'') u = []" by auto
          then show ?thesis unfolding \<open>dropWhile (\<lambda>c. c \<noteq> CHR ''?'') u = []\<close> by simp
        qed
        from Cons c1 c2 f ne q show ?thesis
          by (cases "CHR ''?'' \<in> set u")
             (simp_all add: parseRequestLine_tokens Let_def stringToMethod_UNKNOWN parseQueryString_split)
      qed
    qed
  qed
qed

theorem parseRequestLine_cases_witness:
  "parser_state HttpRequest_new \<and> state HttpRequest_new = REQUEST_LINE
   \<and> (let r' = parseRequestLine (HttpRequest_new\<lparr> bytes_parsed := 21 \<rparr>) ''GET /a?b=1 HTTP/1.1''
      in state r' = HEADERS \<and> error_code r' = 0 \<and> method r' = GET
         \<and> http_version r' = ''HTTP/1.1'' \<and> uri r' = ''/a'' \<and> query_string r' = ''b=1'')"
proof -
  have h1: "parser_state HttpRequest_new" by (rule parser_state.constructed)
  have h2: "state HttpRequest_new = REQUEST_LINE" by (simp add: HttpRequest_new_def)
  have ts: "ws_tokens ''GET /a?b=1 HTTP/1.1'' = [''GET'', ''/a?b=1'', ''HTTP/1.1'']"
    by code_simp
  from parseRequestLine_cases [OF h1 h2, of "''GET /a?b=1 HTTP/1.1''" 21] h1 h2
  show ?thesis
    by (simp add: Let_def ts known_method_def stringToMethod_def)
qed

subsection \<open>The cap on the request line and the headers\<close>

text \<open>
  \<open>loop_next r r'\<close>: one pass through the loop of \<open>parse\<close> takes \<open>r\<close> to \<open>r'\<close> and goes
  round again. Its reflexive transitive closure gives the objects a call passes through.
\<close>

definition loop_next :: "HttpRequest \<Rightarrow> HttpRequest \<Rightarrow> bool" where
  "loop_next r r' = (\<not> terminal r \<and> loop_body r = Inr r')"

text \<open>
  A complete request line followed by 8192 bytes of an unfinished header line, and the
  object once the request line has been consumed.
\<close>

definition c5_data :: string where
  "c5_data = ''GET / HTTP/1.1'' @ CRLF @ replicate 8192 (CHR ''a'')"

definition c5_headers_state :: HttpRequest where
  "c5_headers_state =
     \<lparr> method = GET, uri = ''/'', query_string = [], http_version = ''HTTP/1.1'',
       headers = Map.empty, body = [], state = HEADERS, raw_data = c5_data,
       bytes_parsed = 16, content_length = 0, boundary = [], error_code = 0 \<rparr>"

lemma find_sub_CRLF_none: "CHR 0x0D \<notin> set s \<Longrightarrow> find_sub CRLF s = None"
  by (induction s) (auto simp: CRLF_def)

lemma parse_loop_step: "loop_next a b \<Longrightarrow> parse_loop a = parse_loop b"
  by (simp add: loop_next_def parse_loop.simps[of a])

lemma parse_loop_reaches: "loop_next\<^sup>*\<^sup>* a b \<Longrightarrow> parse_loop a = parse_loop b"
  by (induction rule: rtranclp_induct) (auto dest: parse_loop_step)

lemma loop_body_raw: "loop_body a = Inr b \<Longrightarrow> raw_data b = raw_data a"
  by (auto simp: loop_body_def Let_def split: option.splits if_splits)

lemma loop_next_raw: "loop_next\<^sup>*\<^sup>* a b \<Longrightarrow> raw_data b = raw_data a"
  by (induction rule: rtranclp_induct) (auto simp: loop_next_def dest: loop_body_raw)

lemma parse_awaiting_line:
  assumes "\<not> terminal r"
      and "loop_next\<^sup>*\<^sup>* (r\<lparr> raw_data := raw_data r @ data \<rparr>) s"
      and "state s = REQUEST_LINE \<or> state s = HEADERS"
      and "str_find (raw_data s) CRLF (bytes_parsed s) = None"
    shows "parse r data =
             (if 8192 < length (raw_data r @ data)
              then (s\<lparr> error_code := 431, state := ERROR \<rparr>, False)
              else (s, False))"
proof -
  from assms(1) have "parse r data = parse_loop (r\<lparr> raw_data := raw_data r @ data \<rparr>)"
    by (simp add: parse_def terminal_def)
  also have "\<dots> = parse_loop s" by (rule parse_loop_reaches[OF assms(2)])
  also have "\<dots> = (if 8192 < length (raw_data s)
              then (s\<lparr> error_code := 431, state := ERROR \<rparr>, False)
              else (s, False))"
    using assms(3,4) by (auto simp: parse_loop.simps[of s] terminal_def loop_body_def)
  finally show ?thesis using loop_next_raw[OF assms(2)] by simp
qed

lemma c5_first_pass:
  "loop_body (HttpRequest_new\<lparr> raw_data := raw_data HttpRequest_new @ c5_data \<rparr>) = Inr c5_headers_state"
  by (simp add: loop_body_def HttpRequest_new_def c5_data_def c5_headers_state_def CRLF_def
      str_find_def substr_def Let_def parseRequestLine_def extract_word_def isspace_def
      stringToMethod_def parseQueryString_def find_char_def)


lemma c5_no_terminator: "str_find c5_data CRLF 16 = None"
proof -
  have d: "drop 16 c5_data = replicate 8192 (CHR ''a'')"
    by (simp add: c5_data_def CRLF_def)
  have n: "find_sub CRLF (replicate 8192 (CHR ''a'')) = None"
    by (rule find_sub_CRLF_none) simp
  have l: "\<not> length c5_data < 16"
    by (simp add: c5_data_def CRLF_def)
  show ?thesis unfolding str_find_def d n using l by simp
qed

lemma c5_parse:
  "parse HttpRequest_new c5_data = (c5_headers_state\<lparr> error_code := 431, state := ERROR \<rparr>, False)"
proof -
  have t: "\<not> terminal HttpRequest_new" by (simp add: terminal_def HttpRequest_new_def)
  have n: "loop_next (HttpRequest_new\<lparr> raw_data := raw_data HttpRequest_new @ c5_data \<rparr>) c5_headers_state"
    using c5_first_pass by (simp add: loop_next_def terminal_def HttpRequest_new_def)
  have s: "state c5_headers_state = REQUEST_LINE \<or> state c5_headers_state = HEADERS"
    by (simp add: c5_headers_state_def)
  have f: "str_find (raw_data c5_headers_state) CRLF (bytes_parsed c5_headers_state) = None"
    using c5_no_terminator by (simp add: c5_headers_state_def)
  have l: "8192 < length (raw_data HttpRequest_new @ c5_data)"
    by (simp add: c5_data_def CRLF_def)
  from parse_awaiting_line[OF t r_into_rtranclp[of loop_next, OF n] s f] l show ?thesis
    by simp
qed

text \<open>
  Claim C5 as stated fails: after this input no line terminator follows the read
  position and the bytes not yet consumed number exactly 8192 (they do not exceed the
  cap), yet the call ends with error 431 in state ERROR. The test of the code is on all
  bytes buffered since the request began, the 16 consumed bytes of the request line included.
\<close>

theorem parse_cap_counts_consumed_bytes:
  "str_find (raw_data (fst (parse HttpRequest_new c5_data))) CRLF
            (bytes_parsed (fst (parse HttpRequest_new c5_data))) = None
   \<and> length (raw_data (fst (parse HttpRequest_new c5_data)))
       - bytes_parsed (fst (parse HttpRequest_new c5_data)) = 8192
   \<and> state (fst (parse HttpRequest_new c5_data)) = ERROR
   \<and> error_code (fst (parse HttpRequest_new c5_data)) = 431"
  using c5_no_terminator
  by (simp add: c5_parse) (simp add: c5_headers_state_def c5_data_def CRLF_def)

text \<open>
  While the loop stays in REQUEST_LINE or HEADERS it leaves the error code alone, and a
  request the parser can hold outside ERROR has error code 0.
\<close>

lemma loop_body_round_keeps_error:
  assumes "loop_body a = Inr b" and "state b \<noteq> ERROR"
  shows "error_code b = error_code a"
proof (cases "state a = REQUEST_LINE \<or> state a = HEADERS")
  case True
  with assms(1) obtain i where i: "str_find (raw_data a) CRLF (bytes_parsed a) = Some i"
    by (auto simp: loop_body_def split: option.splits)
  have rl: "error_code (parseRequestLine q l) = error_code q"
    if "state (parseRequestLine q l) \<noteq> ERROR" for q l
    using that by (auto simp: parseRequestLine_tokens Let_def parseQueryString_split split: if_splits)
  have ph: "error_code (parseHeader q l) = error_code q"
    if "state (parseHeader q l) \<noteq> ERROR" for q l
    using that by (simp add: parseHeader_def Let_def split: option.splits)
  have eh: "error_code (endOfHeaders q) = error_code q" for q
    by (simp add: endOfHeaders_def readBoundary_def readContentLength_def Let_def split: option.splits)
  from True i assms(1)
  have "b = parseRequestLine (a\<lparr> bytes_parsed := i + 2 \<rparr>)
              (substr (raw_data a) (bytes_parsed a) (i - bytes_parsed a))
        \<or> b = endOfHeaders (a\<lparr> bytes_parsed := i + 2 \<rparr>)
        \<or> b = parseHeader (a\<lparr> bytes_parsed := i + 2 \<rparr>)
              (substr (raw_data a) (bytes_parsed a) (i - bytes_parsed a))"
    by (simp add: loop_body_def Let_def split: if_splits)
  with assms(2) rl ph eh show ?thesis by auto
next
  case False
  with assms(1) show ?thesis
    by (auto simp: loop_body_def Let_def split: if_splits)
qed

lemma loop_next_from_line_state:
  assumes "loop_next a b" and "state b = REQUEST_LINE \<or> state b = HEADERS"
  shows "state a = REQUEST_LINE \<or> state a = HEADERS"
proof (rule ccontr)
  assume n: "\<not> (state a = REQUEST_LINE \<or> state a = HEADERS)"
  from assms(1) have "\<not> terminal a" "loop_body a = Inr b" by (simp_all add: loop_next_def)
  with n have "state b = COMPLETE"
    by (cases "state a") (auto simp: loop_body_def terminal_def Let_def split: if_splits)
  with assms(2) show False by simp
qed

lemma loop_next_keeps_error:
  assumes "loop_next\<^sup>*\<^sup>* a s" and "state s = REQUEST_LINE \<or> state s = HEADERS"
  shows "error_code s = error_code a"
  using assms
proof (induction rule: rtranclp_induct)
  case base
  show ?case by simp
next
  case (step b c)
  from loop_next_from_line_state[OF step.hyps(2) step.prems]
  have "error_code b = error_code a" by (rule step.IH)
  moreover from step.hyps(2) step.prems have "error_code c = error_code b"
    by (intro loop_body_round_keeps_error) (auto simp: loop_next_def)
  ultimately show ?case by simp
qed

lemma parser_state_no_error:
  "parser_state r \<Longrightarrow> state r \<noteq> ERROR \<Longrightarrow> error_code r = 0"
proof (induction rule: parser_state.induct)
  case constructed
  show ?case by (simp add: HttpRequest_new_def)
next
  case (after_reset r)
  show ?case by (simp add: reset_def)
next
  case (appended r data)
  then show ?case by simp
next
  case (went_round r r')
  from went_round.hyps(2) have "state r \<noteq> ERROR" by (simp add: terminal_def)
  with went_round.IH have "error_code r = 0" .
  with loop_body_round_keeps_error[OF went_round.hyps(3) went_round.prems] show ?case by simp
next
  case (returned r r' b)
  from returned.hyps(2) have "state r \<noteq> ERROR" by (simp add: terminal_def)
  with returned.IH have "error_code r = 0" .
  with loop_body_return_state[OF returned.hyps(3)] returned.prems show ?case by auto
qed

text \<open>
  Claim C5, amended. Take a call of \<open>parse\<close> on a request that is neither COMPLETE nor
  ERROR, and let \<open>s\<close> be the object its loop has arrived at, in state REQUEST_LINE or
  HEADERS, when no line terminator is found at or after the read position. Then the call
  ends there. If all bytes buffered for the request (the consumed ones included) number
  more than 8192, the error code becomes 431 and the state ERROR. If they do not, the call
  returns false (more data needed) in the state \<open>s\<close> has, REQUEST_LINE or HEADERS, and
  sets no error: the error code is the one the request had before the call, which is 0 for
  every request the parser can hold.
\<close>

theorem parse_header_cap:
  assumes "state r \<noteq> COMPLETE" and "state r \<noteq> ERROR"
      and "loop_next\<^sup>*\<^sup>* (r\<lparr> raw_data := raw_data r @ data \<rparr>) s"
      and "state s = REQUEST_LINE \<or> state s = HEADERS"
      and "str_find (raw_data s) CRLF (bytes_parsed s) = None"
    shows "raw_data s = raw_data r @ data
         \<and> error_code s = error_code r
         \<and> (parser_state r \<longrightarrow> error_code s = 0)
         \<and> parse r data =
             (if 8192 < length (raw_data r @ data)
              then (s\<lparr> error_code := 431, state := ERROR \<rparr>, False)
              else (s, False))"
proof -
  have e: "error_code s = error_code r"
    using loop_next_keeps_error[OF assms(3,4)] by simp
  have z: "parser_state r \<longrightarrow> error_code s = 0"
    using parser_state_no_error[of r] assms(2) e by simp
  from assms parse_awaiting_line[of r data s]
       loop_next_raw[of "r\<lparr> raw_data := raw_data r @ data \<rparr>" s] e z
  show ?thesis by (simp add: terminal_def)
qed

definition c5_short_data :: string where
  "c5_short_data = ''GET / HTTP/1.1'' @ CRLF @ ''Host: exam''"

definition c5_short_state :: HttpRequest where
  "c5_short_state =
     \<lparr> method = GET, uri = ''/'', query_string = [], http_version = ''HTTP/1.1'',
       headers = Map.empty, body = [], state = HEADERS, raw_data = c5_short_data,
       bytes_parsed = 16, content_length = 0, boundary = [], error_code = 0 \<rparr>"

theorem parse_header_cap_witness:
  "state HttpRequest_new \<noteq> COMPLETE \<and> state HttpRequest_new \<noteq> ERROR
   \<and> parser_state HttpRequest_new
   \<and> loop_next\<^sup>*\<^sup>* (HttpRequest_new\<lparr> raw_data := raw_data HttpRequest_new @ c5_short_data \<rparr>)
         c5_short_state
   \<and> state c5_short_state = HEADERS
   \<and> str_find (raw_data c5_short_state) CRLF (bytes_parsed c5_short_state) = None
   \<and> length (raw_data HttpRequest_new @ c5_short_data) = 26
   \<and> parse HttpRequest_new c5_short_data = (c5_short_state, False)
   \<and> state (fst (parse HttpRequest_new c5_short_data)) = HEADERS
   \<and> error_code (fst (parse HttpRequest_new c5_short_data)) = 0
   \<and> snd (parse HttpRequest_new c5_short_data) = False"
proof -
  have a: "state HttpRequest_new \<noteq> COMPLETE" and b: "state HttpRequest_new \<noteq> ERROR"
    by (simp_all add: HttpRequest_new_def)
  have p: "parser_state HttpRequest_new" by (rule parser_state.constructed)
  have "loop_body (HttpRequest_new\<lparr> raw_data := raw_data HttpRequest_new @ c5_short_data \<rparr>)
          = Inr c5_short_state"
    by (simp add: loop_body_def HttpRequest_new_def c5_short_data_def c5_short_state_def CRLF_def
      str_find_def substr_def Let_def parseRequestLine_def extract_word_def isspace_def
      stringToMethod_def parseQueryString_def find_char_def)
  then have "loop_next (HttpRequest_new\<lparr> raw_data := raw_data HttpRequest_new @ c5_short_data \<rparr>)
               c5_short_state"
    by (simp add: loop_next_def terminal_def HttpRequest_new_def)
  then have n: "loop_next\<^sup>*\<^sup>* (HttpRequest_new\<lparr> raw_data := raw_data HttpRequest_new @ c5_short_data \<rparr>)
               c5_short_state"
    by (rule r_into_rtranclp)
  have s: "state c5_short_state = REQUEST_LINE \<or> state c5_short_state = HEADERS"
    by (simp add: c5_short_state_def)
  have f: "str_find (raw_data c5_short_state) CRLF (bytes_parsed c5_short_state) = None"
    by (simp add: c5_short_state_def c5_short_data_def str_find_def CRLF_def)
  have l: "length (raw_data HttpRequest_new @ c5_short_data) = 26"
    by (simp add: c5_short_data_def CRLF_def HttpRequest_new_def)
  from l have l': "\<not> 8192 < length (raw_data HttpRequest_new) + length c5_short_data"
    by simp
  from parse_header_cap [OF a b n s f] p
  have r: "parse HttpRequest_new c5_short_data = (c5_short_state, False)"
    and e: "error_code c5_short_state = 0"
    by (simp_all add: l')
  have h: "state c5_short_state = HEADERS" by (simp add: c5_short_state_def)
  from a b p n h f l r e show ?thesis by simp
qed

subsection \<open>Feeding a request in chunks\<close>

text \<open>
  \<open>ext r e\<close> is \<open>r\<close> with \<open>e\<close> appended to its buffer, the first thing \<open>parse\<close> does.
  \<open>cap_hit\<close> says that a request ended with error 431. \<open>feed\<close> calls \<open>parse\<close> once per
  chunk, in order, and \<open>same_fields\<close> compares the state and the parsed fields of two
  requests.
\<close>

definition ext :: "HttpRequest \<Rightarrow> string \<Rightarrow> HttpRequest" where
  "ext r e = r\<lparr> raw_data := raw_data r @ e \<rparr>"

definition cap_hit :: "HttpRequest \<Rightarrow> bool" where
  "cap_hit r = (state r = ERROR \<and> error_code r = 431)"

definition same_fields :: "HttpRequest \<Rightarrow> HttpRequest \<Rightarrow> bool" where
  "same_fields a b =
     (state a = state b \<and> method a = method b \<and> uri a = uri b
      \<and> query_string a = query_string b \<and> http_version a = http_version b
      \<and> headers a = headers b \<and> body a = body b
      \<and> content_length a = content_length b \<and> boundary a = boundary b
      \<and> error_code a = error_code b)"

definition feed :: "HttpRequest \<Rightarrow> string list \<Rightarrow> HttpRequest" where
  "feed r chunks = fold (\<lambda>d q. fst (parse q d)) chunks r"

lemma prefix_within:
  assumes "length pat \<le> length xs"
  shows "prefix pat (xs @ ys) = prefix pat xs"
proof
  assume "prefix pat (xs @ ys)"
  then obtain zs where "xs @ ys = pat @ zs" by (rule prefixE)
  then have "take (length pat) (xs @ ys) = take (length pat) (pat @ zs)" by (simp only:)
  with assms have "take (length pat) xs = pat" by simp
  then show "prefix pat xs" using take_is_prefix[of "length pat" xs] by simp
next
  assume "prefix pat xs"
  then show "prefix pat (xs @ ys)" by (rule prefix_prefix)
qed

lemma find_sub_append:
  "find_sub pat xs = Some j \<Longrightarrow> find_sub pat (xs @ ys) = Some j"
proof (induction xs arbitrary: j)
  case Nil
  then show ?case by (cases ys) (simp_all split: if_splits)
next
  case (Cons x xs)
  show ?case
  proof (cases "prefix pat (x # xs)")
    case True
    with Cons.prems have "j = 0" by simp
    moreover from True have "prefix pat ((x # xs) @ ys)" by (rule prefix_prefix)
    ultimately show ?thesis by simp
  next
    case False
    with Cons.prems obtain j' where j': "find_sub pat xs = Some j'" "j = Suc j'" by auto
    from find_sub_bound[OF j'(1)] have "length pat \<le> length (x # xs)" by simp
    from prefix_within[OF this, of ys] False have "\<not> prefix pat ((x # xs) @ ys)" by simp
    with Cons.IH[OF j'(1)] j'(2) show ?thesis by simp
  qed
qed

lemma str_find_append:
  assumes "str_find s pat pos = Some i"
  shows "str_find (s @ e) pat pos = Some i"
proof -
  from assms obtain j where j: "find_sub pat (drop pos s) = Some j" "i = j + pos" "pos \<le> length s"
    by (auto simp: str_find_def split: if_splits)
  from find_sub_append[OF j(1), of e] j show ?thesis
    by (simp add: str_find_def)
qed

lemma substr_append:
  "pos + n \<le> length s \<Longrightarrow> substr (s @ e) pos n = substr s pos n"
  by (simp add: substr_def)

lemma ext_simps [simp]:
  "raw_data (ext r e) = raw_data r @ e"
  "bytes_parsed (ext r e) = bytes_parsed r"
  "state (ext r e) = state r"
  "content_length (ext r e) = content_length r"
  "error_code (ext r e) = error_code r"
  "terminal (ext r e) = terminal r"
  by (simp_all add: ext_def terminal_def)

lemma ext_getHeader: "getHeader (ext r e) k = getHeader r k"
  by (simp add: getHeader_def ext_def)

lemma ext_isChunked: "isChunked (ext r e) = isChunked r"
  by (simp add: isChunked_def ext_getHeader)

lemma ext_parseQueryString: "parseQueryString (ext r e) = ext (parseQueryString r) e"
  by (simp add: parseQueryString_def ext_def split: option.splits)

lemma ext_parseHeader: "parseHeader (ext r e) l = ext (parseHeader r l) e"
  by (simp add: parseHeader_def ext_def Let_def split: option.splits)

lemma ext_parseRequestLine: "parseRequestLine (ext r e) l = ext (parseRequestLine r l) e"
proof -
  have u: "uri (ext r e) = uri r" "http_version (ext r e) = http_version r"
    by (simp_all add: ext_def)
  have c: "(ext r e)\<lparr> uri := a, http_version := b, method := m \<rparr>
           = ext (r\<lparr> uri := a, http_version := b, method := m \<rparr>) e" for a b m
    by (simp add: ext_def)
  have d: "(ext q e)\<lparr> error_code := x, state := y \<rparr> = ext (q\<lparr> error_code := x, state := y \<rparr>) e"
          "(ext q e)\<lparr> state := y \<rparr> = ext (q\<lparr> state := y \<rparr>) e"
          "method (ext q e) = method q" "uri (ext q e) = uri q"
          "http_version (ext q e) = http_version q" for q x y
    by (simp_all add: ext_def)
  show ?thesis
    unfolding parseRequestLine_tokens Let_def u c d ext_parseQueryString
    by (simp only: if_distrib[of "\<lambda>q. ext q e"] cong: if_cong)
qed

lemma ext_readContentLength: "readContentLength (ext r e) = ext (readContentLength r) e"
  by (simp add: readContentLength_def ext_getHeader Let_def) (simp add: ext_def)

lemma ext_readBoundary: "readBoundary (ext r e) = ext (readBoundary r) e"
  by (simp add: readBoundary_def ext_getHeader Let_def split: option.splits) (simp add: ext_def)

lemma ext_endOfHeaders: "endOfHeaders (ext r e) = ext (endOfHeaders r) e"
proof -
  have d: "(ext q e)\<lparr> state := y \<rparr> = ext (q\<lparr> state := y \<rparr>) e" for q y
    by (simp add: ext_def)
  show ?thesis
    by (simp add: endOfHeaders_def ext_readContentLength ext_readBoundary ext_isChunked Let_def d)
qed

lemmas ext_commute = ext_isChunked ext_parseHeader ext_parseRequestLine ext_endOfHeaders

lemma ext_update_commute:
  "ext (r\<lparr> bytes_parsed := k \<rparr>) e = (ext r e)\<lparr> bytes_parsed := k \<rparr>"
  "ext (r\<lparr> error_code := c, state := st \<rparr>) e = (ext r e)\<lparr> error_code := c, state := st \<rparr>"
  "ext (r\<lparr> body := b, bytes_parsed := k, state := st \<rparr>) e = (ext r e)\<lparr> body := b, bytes_parsed := k, state := st \<rparr>"
  by (simp_all add: ext_def)

lemma loop_body_line:
  assumes "state r = REQUEST_LINE \<or> state r = HEADERS"
      and "str_find (raw_data r) CRLF (bytes_parsed r) = Some i"
  shows "loop_body r =
           Inr (if state r = REQUEST_LINE
                then parseRequestLine (r\<lparr> bytes_parsed := i + 2 \<rparr>)
                       (substr (raw_data r) (bytes_parsed r) (i - bytes_parsed r))
                else if substr (raw_data r) (bytes_parsed r) (i - bytes_parsed r) = []
                then endOfHeaders (r\<lparr> bytes_parsed := i + 2 \<rparr>)
                else parseHeader (r\<lparr> bytes_parsed := i + 2 \<rparr>)
                       (substr (raw_data r) (bytes_parsed r) (i - bytes_parsed r)))"
  using assms by (simp add: loop_body_def Let_def)

lemma loop_body_no_line:
  assumes "state r = REQUEST_LINE \<or> state r = HEADERS"
      and "str_find (raw_data r) CRLF (bytes_parsed r) = None"
  shows "loop_body r =
           Inl (if 8192 < length (raw_data r)
                then r\<lparr> error_code := 431, state := ERROR \<rparr> else r, False)"
  using assms by (simp add: loop_body_def)

lemma loop_body_BODY:
  assumes "state r = BODY"
  shows "loop_body r =
           (if isChunked r then Inl (r\<lparr> error_code := 501, state := ERROR \<rparr>, False)
            else if content_length r \<le> length (raw_data r) - bytes_parsed r
            then Inr (r\<lparr> body := substr (raw_data r) (bytes_parsed r) (content_length r),
                         bytes_parsed := bytes_parsed r + content_length r,
                         state := COMPLETE \<rparr>)
            else Inl (r, False))"
  using assms by (simp add: loop_body_def Let_def)

lemma loop_body_terminal:
  assumes "terminal r"
  shows "loop_body r = Inr r"
  using assms by (auto simp: loop_body_def terminal_def)

lemma state_cases:
  obtains "state r = REQUEST_LINE \<or> state r = HEADERS" | "state r = BODY" | "terminal r"
  by (cases "state r") (auto simp: terminal_def)

lemma loop_body_ext_round:
  assumes "loop_body s = Inr s'"
  shows "loop_body (ext s e) = Inr (ext s' e)"
proof (cases s rule: state_cases)
  case 1
  with assms obtain i where i: "str_find (raw_data s) CRLF (bytes_parsed s) = Some i"
    by (cases "str_find (raw_data s) CRLF (bytes_parsed s)") (simp_all add: loop_body_no_line)
  from str_find_bounds[OF i] have b: "bytes_parsed s \<le> i" "i + 2 \<le> length (raw_data s)"
    by (simp_all add: CRLF_def)
  then have l: "substr (raw_data s @ e) (bytes_parsed s) (i - bytes_parsed s)
             = substr (raw_data s) (bytes_parsed s) (i - bytes_parsed s)"
    by (intro substr_append) simp
  have st': "state (ext s e) = REQUEST_LINE \<or> state (ext s e) = HEADERS" using 1 by simp
  have i': "str_find (raw_data (ext s e)) CRLF (bytes_parsed (ext s e)) = Some i"
    using str_find_append[OF i, of e] by simp
  from assms have s': "s' = (if state s = REQUEST_LINE
                then parseRequestLine (s\<lparr> bytes_parsed := i + 2 \<rparr>)
                       (substr (raw_data s) (bytes_parsed s) (i - bytes_parsed s))
                else if substr (raw_data s) (bytes_parsed s) (i - bytes_parsed s) = []
                then endOfHeaders (s\<lparr> bytes_parsed := i + 2 \<rparr>)
                else parseHeader (s\<lparr> bytes_parsed := i + 2 \<rparr>)
                       (substr (raw_data s) (bytes_parsed s) (i - bytes_parsed s)))"
    unfolding loop_body_line[OF 1 i] by simp
  show ?thesis
    unfolding loop_body_line[OF st' i'] s'
    by (simp add: l ext_commute ext_update_commute[symmetric])
next
  case 2
  with assms have c: "\<not> isChunked s" "content_length s \<le> length (raw_data s) - bytes_parsed s"
    and s': "s' = s\<lparr> body := substr (raw_data s) (bytes_parsed s) (content_length s),
                     bytes_parsed := bytes_parsed s + content_length s, state := COMPLETE \<rparr>"
    by (simp_all add: loop_body_BODY split: if_splits)
  from c(2) have "substr (raw_data s @ e) (bytes_parsed s) (content_length s)
           = substr (raw_data s) (bytes_parsed s) (content_length s)"
    by (cases "bytes_parsed s \<le> length (raw_data s)") (simp_all add: substr_def)
  moreover have "state (ext s e) = BODY" using 2 by simp
  ultimately show ?thesis using c s'
    by (simp add: loop_body_BODY ext_isChunked ext_update_commute)
next
  case 3
  with assms have "s' = s" by (simp add: loop_body_terminal)
  with 3 show ?thesis by (simp add: loop_body_terminal)
qed

lemma loop_body_ext_return:
  assumes "loop_body s = Inl (t, b)"
  shows "t = s \<or> cap_hit t \<or> (terminal t \<and> loop_body (ext s e) = Inl (ext t e, b))"
proof (cases s rule: state_cases)
  case 1
  with assms have n: "str_find (raw_data s) CRLF (bytes_parsed s) = None"
    by (cases "str_find (raw_data s) CRLF (bytes_parsed s)") (simp_all add: loop_body_line)
  from assms show ?thesis
    unfolding loop_body_no_line[OF 1 n] by (auto simp: cap_hit_def)
next
  case 2
  have st': "state (ext s e) = BODY" using 2 by simp
  show ?thesis
  proof (cases "isChunked s")
    case True
    with assms 2 have "t = s\<lparr> error_code := 501, state := ERROR \<rparr>" "b = False"
      by (simp_all add: loop_body_BODY)
    with True show ?thesis
      by (simp add: loop_body_BODY[OF st'] ext_isChunked terminal_def ext_update_commute)
  next
    case False
    with assms 2 have "t = s" by (simp add: loop_body_BODY split: if_splits)
    then show ?thesis by simp
  qed
next
  case 3
  with assms show ?thesis by (simp add: loop_body_terminal)
qed

lemma parse_loop_ext:
  "\<not> cap_hit (fst (parse_loop s)) \<Longrightarrow>
   fst (parse_loop (ext (fst (parse_loop s)) e)) = fst (parse_loop (ext s e))"
proof (induction s rule: parse_loop.induct)
  case (1 r)
  show ?case
  proof (cases "terminal r")
    case True
    then show ?thesis by (simp add: parse_loop.simps[of r])
  next
    case False
    show ?thesis
    proof (cases "loop_body r")
      case (Inl res)
      obtain t b where res: "res = (t, b)" by (cases res)
      with Inl False have p: "parse_loop r = (t, b)" by (simp add: parse_loop.simps[of r])
      from loop_body_ext_return[OF Inl[unfolded res], of e] "1.prems" p
      consider "t = r" | "terminal t" "loop_body (ext r e) = Inl (ext t e, b)" by auto
      then show ?thesis
      proof cases
        case 1
        with p show ?thesis by simp
      next
        case 2
        with False have "parse_loop (ext r e) = (ext t e, b)"
          by (simp add: parse_loop.simps[of "ext r e"])
        moreover from 2 have "fst (parse_loop (ext t e)) = ext t e"
          by (simp add: parse_loop.simps[of "ext t e"])
        ultimately show ?thesis using p by simp
      qed
    next
      case (Inr r')
      with False have p: "parse_loop r = parse_loop r'" by (simp add: parse_loop.simps[of r])
      from loop_body_ext_round[OF Inr, of e] False
      have "parse_loop (ext r e) = parse_loop (ext r' e)"
        by (simp add: parse_loop.simps[of "ext r e"])
      with "1.IH"[OF False Inr] "1.prems" p show ?thesis by simp
    qed
  qed
qed


lemma parse_new:
  "fst (parse HttpRequest_new p) = fst (parse_loop (ext HttpRequest_new p))"
  by (simp add: parse_def HttpRequest_new_def ext_def)

lemma ext_ext: "ext (ext r a) b = ext r (a @ b)"
  by (simp add: ext_def)

lemma strip_ext: "(ext r e)\<lparr> raw_data := [] \<rparr> = r\<lparr> raw_data := [] \<rparr>"
  by (simp add: ext_def)

lemma feed_snoc: "feed r (cs @ [c]) = fst (parse (feed r cs) c)"
  by (simp add: feed_def)

lemma parse_nonterminal: "\<not> terminal r \<Longrightarrow> parse r d = parse_loop (ext r d)"
  by (simp add: parse_def terminal_def ext_def)

lemma parse_terminal: "terminal r \<Longrightarrow> fst (parse r d) = r"
  by (simp add: parse_def terminal_def)

lemma feed_invariant:
  assumes "\<forall>k<length chunks. \<not> cap_hit (fst (parse HttpRequest_new (concat (take k chunks))))"
  shows "(feed HttpRequest_new chunks)\<lparr> raw_data := [] \<rparr>
           = (fst (parse HttpRequest_new (concat chunks)))\<lparr> raw_data := [] \<rparr>
         \<and> (\<not> terminal (fst (parse HttpRequest_new (concat chunks)))
              \<longrightarrow> feed HttpRequest_new chunks = fst (parse HttpRequest_new (concat chunks)))"
  using assms
proof (induction chunks rule: rev_induct)
  case Nil
  have e: "ext HttpRequest_new [] = HttpRequest_new" by (simp add: ext_def)
  have t: "\<not> terminal HttpRequest_new" by (simp add: terminal_def HttpRequest_new_def)
  have "loop_body HttpRequest_new = Inl (HttpRequest_new, False)"
    by (simp add: loop_body_def HttpRequest_new_def str_find_def CRLF_def)
  with t have "parse_loop HttpRequest_new = (HttpRequest_new, False)"
    by (simp add: parse_loop.simps[of HttpRequest_new])
  then show ?case by (simp add: feed_def parse_new e)
next
  case (snoc c cs)
  let ?p = "concat cs"
  let ?G = "fst (parse HttpRequest_new ?p)"
  have pre: "\<forall>k<length cs. \<not> cap_hit (fst (parse HttpRequest_new (concat (take k cs))))"
  proof (intro allI impI)
    fix k assume "k < length cs"
    with snoc.prems[rule_format, of k] show "\<not> cap_hit (fst (parse HttpRequest_new (concat (take k cs))))"
      by simp
  qed
  from snoc.prems[rule_format, of "length cs"] have nohit: "\<not> cap_hit ?G" by simp
  from snoc.IH[OF pre]
  have ih1: "(feed HttpRequest_new cs)\<lparr> raw_data := [] \<rparr> = ?G\<lparr> raw_data := [] \<rparr>"
    and ih2: "\<not> terminal ?G \<Longrightarrow> feed HttpRequest_new cs = ?G"
    by simp_all
  from ih1 have st: "state (feed HttpRequest_new cs) = state ?G"
    by (metis HttpRequest.select_convs(7) HttpRequest.surjective HttpRequest.update_convs(8))
  have key: "fst (parse_loop (ext ?G c)) = fst (parse HttpRequest_new (concat (cs @ [c])))"
    using parse_loop_ext[of "ext HttpRequest_new ?p" c] nohit
    by (simp add: parse_new ext_ext)
  show ?case
  proof (cases "terminal ?G")
    case True
    with st have "terminal (feed HttpRequest_new cs)" by (simp add: terminal_def)
    then have f: "feed HttpRequest_new (cs @ [c]) = feed HttpRequest_new cs"
      by (simp add: feed_snoc parse_terminal)
    from True have "fst (parse_loop (ext ?G c)) = ext ?G c"
      by (simp add: parse_loop.simps[of "ext ?G c"])
    with key have g: "fst (parse HttpRequest_new (concat (cs @ [c]))) = ext ?G c" by simp
    from True have "terminal (ext ?G c)" by simp
    with f g ih1 show ?thesis by (simp add: strip_ext)
  next
    case False
    from ih2[OF False] have "feed HttpRequest_new (cs @ [c]) = fst (parse ?G c)"
      by (simp add: feed_snoc)
    also have "\<dots> = fst (parse_loop (ext ?G c))" using False by (simp add: parse_nonterminal)
    finally show ?thesis using key by simp
  qed
qed

lemma strip_same_fields:
  "a\<lparr> raw_data := [] \<rparr> = b\<lparr> raw_data := [] \<rparr> \<Longrightarrow> same_fields a b"
  unfolding same_fields_def
  by (cases a, cases b) simp

text \<open>
  Claim C3, amended. Take any byte sequence cut into chunks in any way. If at no chunk
  boundary the bytes received so far, parsed in one call, end with error 431 (the cap on
  an unfinished request line or header block; by \<open>small_no_cap_hit\<close> and
  \<open>headers_within_cap_no_cap_hit\<close> below this holds whenever the whole sequence, or its
  part up to the end of the headers, has at most 8192 bytes), then feeding the chunks one call at a
  time ends in the same state and with the same method, URI, query string, version,
  headers, body, content length, boundary and error code as one call on the whole sequence.
\<close>

theorem chunked_parse_same:
  assumes "\<forall>k<length chunks. \<not> cap_hit (fst (parse HttpRequest_new (concat (take k chunks))))"
  shows "same_fields (feed HttpRequest_new chunks) (fst (parse HttpRequest_new (concat chunks)))"
  using feed_invariant[OF assms] by (simp add: strip_same_fields)


text \<open>
  A well-formed request of 8214 bytes whose single header line is longer than 8 KB, cut
  just before the end of that line.
\<close>

definition c3_chunk1 :: string where
  "c3_chunk1 = ''GET / HTTP/1.1'' @ CRLF @ ''X:'' @ replicate 8192 (CHR ''a'')"

definition c3_chunk2 :: string where
  "c3_chunk2 = CRLF @ CRLF"

definition c3_s1 :: "string \<Rightarrow> HttpRequest" where
  "c3_s1 raw =
     \<lparr> method = GET, uri = ''/'', query_string = [], http_version = ''HTTP/1.1'',
       headers = Map.empty, body = [], state = HEADERS, raw_data = raw,
       bytes_parsed = 16, content_length = 0, boundary = [], error_code = 0 \<rparr>"

definition c3_s2 :: HttpRequest where
  "c3_s2 = (c3_s1 (c3_chunk1 @ c3_chunk2))
             \<lparr> headers := [''x'' \<mapsto> replicate 8192 (CHR ''a'')], bytes_parsed := 8212 \<rparr>"

definition c3_s3 :: HttpRequest where
  "c3_s3 = c3_s2\<lparr> bytes_parsed := 8214, state := COMPLETE \<rparr>"

lemma find_sub_CRLF_skip:
  "CHR 0x0D \<notin> set xs \<Longrightarrow>
   find_sub CRLF (xs @ ys) = map_option (\<lambda>i. i + length xs) (find_sub CRLF ys)"
  by (induction xs) (auto simp: CRLF_def option.map_comp comp_def option.map_ident)

lemma c3_pass1:
  "loop_body (ext HttpRequest_new (c3_chunk1 @ e)) = Inr (c3_s1 (c3_chunk1 @ e))"
  by (simp add: loop_body_def HttpRequest_new_def c3_chunk1_def c3_s1_def CRLF_def ext_def
      str_find_def substr_def Let_def parseRequestLine_def extract_word_def isspace_def
      stringToMethod_def parseQueryString_def find_char_def)

lemma c3_find2: "str_find (c3_chunk1 @ c3_chunk2) CRLF 16 = Some 8210"
proof -
  have d: "drop 16 (c3_chunk1 @ c3_chunk2) = ''X:'' @ replicate 8192 (CHR ''a'') @ CRLF @ CRLF"
    by (simp add: c3_chunk1_def c3_chunk2_def CRLF_def)
  have "find_sub CRLF (replicate 8192 (CHR ''a'') @ CRLF @ CRLF) = Some 8192"
    by (subst find_sub_CRLF_skip) (simp_all add: CRLF_def)
  then have "find_sub CRLF (''X:'' @ replicate 8192 (CHR ''a'') @ CRLF @ CRLF) = Some 8194"
    by (simp add: CRLF_def)
  moreover have "\<not> length (c3_chunk1 @ c3_chunk2) < 16"
    by (simp add: c3_chunk1_def)
  ultimately show ?thesis unfolding str_find_def d by simp
qed

lemma c3_line2:
  "substr (c3_chunk1 @ c3_chunk2) 16 (8210 - 16) = ''X:'' @ replicate 8192 (CHR ''a'')"
  by (simp add: substr_def c3_chunk1_def c3_chunk2_def CRLF_def)

lemma c3_header:
  "parseHeader r (''X:'' @ replicate 8192 (CHR ''a''))
     = r\<lparr> headers := (headers r)(''x'' \<mapsto> replicate 8192 (CHR ''a'')) \<rparr>"
proof -
  have k: "toLower (trim ''X'') = ''x''" by code_simp
  have v: "trim (replicate 8192 (CHR ''a'')) = replicate 8192 (CHR ''a'')"
    by (simp add: trim_def find_first_not_of_def find_last_not_of_def ws4_def substr_def)
  have f: "find_char (''X:'' @ replicate 8192 (CHR ''a'')) (CHR '':'') = Some 1"
    by (simp add: find_char_def)
  have a: "substr (''X:'' @ replicate 8192 (CHR ''a'')) 0 1 = ''X''"
    by (simp add: substr_def)
  have b: "substr_from (''X:'' @ replicate 8192 (CHR ''a'')) (1 + 1) = replicate 8192 (CHR ''a'')"
    by (simp add: substr_from_def)
  show ?thesis
    unfolding parseHeader_def f option.case Let_def a b k v ..
qed

lemma c3_pass2: "loop_body (c3_s1 (c3_chunk1 @ c3_chunk2)) = Inr c3_s2"
proof -
  have st: "state (c3_s1 (c3_chunk1 @ c3_chunk2)) = REQUEST_LINE
            \<or> state (c3_s1 (c3_chunk1 @ c3_chunk2)) = HEADERS"
    by (simp add: c3_s1_def)
  have f: "str_find (raw_data (c3_s1 (c3_chunk1 @ c3_chunk2))) CRLF
             (bytes_parsed (c3_s1 (c3_chunk1 @ c3_chunk2))) = Some 8210"
    using c3_find2 by (simp add: c3_s1_def)
  have l: "substr (raw_data (c3_s1 (c3_chunk1 @ c3_chunk2)))
             (bytes_parsed (c3_s1 (c3_chunk1 @ c3_chunk2)))
             (8210 - bytes_parsed (c3_s1 (c3_chunk1 @ c3_chunk2)))
           = ''X:'' @ replicate 8192 (CHR ''a'')"
    using c3_line2 by (simp add: c3_s1_def)
  show ?thesis
    unfolding loop_body_line[OF st f] l c3_header
    by (simp add: c3_s1_def c3_s2_def)
qed

lemma c3_find3: "str_find (c3_chunk1 @ c3_chunk2) CRLF 8212 = Some 8212"
proof -
  have d: "drop 8212 (c3_chunk1 @ c3_chunk2) = CRLF"
    by (simp add: c3_chunk1_def c3_chunk2_def CRLF_def)
  have "\<not> length (c3_chunk1 @ c3_chunk2) < 8212"
    by (simp add: c3_chunk1_def c3_chunk2_def CRLF_def)
  then show ?thesis unfolding str_find_def d by (simp add: CRLF_def)
qed

lemma c3_end: "endOfHeaders (c3_s2\<lparr> bytes_parsed := 8214 \<rparr>) = c3_s3"
proof -
  have a: "toLower ''Content-Length'' = ''content-length''"
          "toLower ''Content-Type'' = ''content-type''"
          "toLower ''Transfer-Encoding'' = ''transfer-encoding''"
    by code_simp+
  have g: "getHeader (c3_s2\<lparr> bytes_parsed := 8214 \<rparr>) ''Content-Length'' = []"
          "getHeader (c3_s2\<lparr> bytes_parsed := 8214 \<rparr>) ''Content-Type'' = []"
          "getHeader (c3_s2\<lparr> bytes_parsed := 8214 \<rparr>) ''Transfer-Encoding'' = []"
    by (simp_all add: getHeader_def a c3_s2_def c3_s1_def)
  have rc: "readContentLength (c3_s2\<lparr> bytes_parsed := 8214 \<rparr>) = c3_s2\<lparr> bytes_parsed := 8214 \<rparr>"
    by (simp add: readContentLength_def g)
  have rb: "readBoundary (c3_s2\<lparr> bytes_parsed := 8214 \<rparr>) = c3_s2\<lparr> bytes_parsed := 8214 \<rparr>"
    by (simp add: readBoundary_def g str_find_def)
  have ch: "\<not> isChunked (c3_s2\<lparr> bytes_parsed := 8214 \<rparr>)"
    by (simp add: isChunked_def g toLower_def str_find_def)
  have cl: "content_length (c3_s2\<lparr> bytes_parsed := 8214 \<rparr>) = 0"
    by (simp add: c3_s2_def c3_s1_def)
  show ?thesis
    by (simp add: endOfHeaders_def rc rb ch cl c3_s3_def)
qed

lemma c3_pass3: "loop_body c3_s2 = Inr c3_s3"
proof -
  have st: "state c3_s2 = REQUEST_LINE \<or> state c3_s2 = HEADERS"
    by (simp add: c3_s2_def c3_s1_def)
  have f: "str_find (raw_data c3_s2) CRLF (bytes_parsed c3_s2) = Some 8212"
    using c3_find3 by (simp add: c3_s2_def c3_s1_def)
  have l: "substr (raw_data c3_s2) (bytes_parsed c3_s2) (8212 - bytes_parsed c3_s2) = []"
    by (simp add: substr_def c3_s2_def c3_s1_def)
  have h: "state c3_s2 \<noteq> REQUEST_LINE" by (simp add: c3_s2_def c3_s1_def)
  show ?thesis
    unfolding loop_body_line[OF st f] l using h c3_end by simp
qed

lemma c3_one_shot: "parse HttpRequest_new (c3_chunk1 @ c3_chunk2) = (c3_s3, True)"
proof -
  have t0: "\<not> terminal HttpRequest_new" by (simp add: terminal_def HttpRequest_new_def)
  have t1: "\<not> terminal (c3_s1 (c3_chunk1 @ c3_chunk2))" by (simp add: terminal_def c3_s1_def)
  have t2: "\<not> terminal c3_s2" by (simp add: terminal_def c3_s2_def c3_s1_def)
  have t3: "terminal c3_s3" "state c3_s3 = COMPLETE" by (simp_all add: terminal_def c3_s3_def)
  have "parse HttpRequest_new (c3_chunk1 @ c3_chunk2)
          = parse_loop (ext HttpRequest_new (c3_chunk1 @ c3_chunk2))"
    using t0 by (rule parse_nonterminal)
  also have "\<dots> = parse_loop (c3_s1 (c3_chunk1 @ c3_chunk2))"
    using t0 c3_pass1[of c3_chunk2]
    by (simp add: parse_loop.simps[of "ext HttpRequest_new (c3_chunk1 @ c3_chunk2)"])
  also have "\<dots> = parse_loop c3_s2"
    using t1 c3_pass2 by (simp add: parse_loop.simps[of "c3_s1 (c3_chunk1 @ c3_chunk2)"])
  also have "\<dots> = parse_loop c3_s3"
    using t2 c3_pass3 by (simp add: parse_loop.simps[of c3_s2])
  also have "\<dots> = (c3_s3, True)"
    using t3 by (simp add: parse_loop.simps[of c3_s3])
  finally show ?thesis .
qed

lemma c3_first_chunk:
  "parse HttpRequest_new c3_chunk1 = ((c3_s1 c3_chunk1)\<lparr> error_code := 431, state := ERROR \<rparr>, False)"
proof -
  have t0: "\<not> terminal HttpRequest_new" by (simp add: terminal_def HttpRequest_new_def)
  have t1: "\<not> terminal (c3_s1 c3_chunk1)" by (simp add: terminal_def c3_s1_def)
  have d: "drop 16 c3_chunk1 = ''X:'' @ replicate 8192 (CHR ''a'')"
    by (simp add: c3_chunk1_def CRLF_def)
  have "find_sub CRLF (''X:'' @ replicate 8192 (CHR ''a'')) = None"
    by (rule find_sub_CRLF_none) simp
  moreover have "\<not> length c3_chunk1 < 16" by (simp add: c3_chunk1_def)
  ultimately have n: "str_find c3_chunk1 CRLF 16 = None"
    unfolding str_find_def d by simp
  have st: "state (c3_s1 c3_chunk1) = REQUEST_LINE \<or> state (c3_s1 c3_chunk1) = HEADERS"
    by (simp add: c3_s1_def)
  have n': "str_find (raw_data (c3_s1 c3_chunk1)) CRLF (bytes_parsed (c3_s1 c3_chunk1)) = None"
    using n by (simp add: c3_s1_def)
  have len: "8192 < length (raw_data (c3_s1 c3_chunk1))"
    by (simp add: c3_s1_def c3_chunk1_def)
  have "parse HttpRequest_new c3_chunk1 = parse_loop (ext HttpRequest_new c3_chunk1)"
    using t0 by (rule parse_nonterminal)
  also have "\<dots> = parse_loop (c3_s1 c3_chunk1)"
    using t0 c3_pass1[of "[]"] by (simp add: parse_loop.simps[of "ext HttpRequest_new c3_chunk1"])
  also have "\<dots> = ((c3_s1 c3_chunk1)\<lparr> error_code := 431, state := ERROR \<rparr>, False)"
    using t1 len by (simp add: parse_loop.simps[of "c3_s1 c3_chunk1"] loop_body_no_line[OF st n'])
  finally show ?thesis .
qed

text \<open>
  Claim C3 as stated fails. Fed in one call, the request above is COMPLETE with no error.
  Fed as two non-empty chunks, the first call finds more than 8192 buffered bytes and no
  terminator for the header line, so the request ends in ERROR with code 431, and the
  second chunk is ignored.
\<close>

theorem chunked_parse_differs:
  "c3_chunk1 \<noteq> [] \<and> c3_chunk2 \<noteq> []
   \<and> state (fst (parse HttpRequest_new (concat [c3_chunk1, c3_chunk2]))) = COMPLETE
   \<and> error_code (fst (parse HttpRequest_new (concat [c3_chunk1, c3_chunk2]))) = 0
   \<and> state (feed HttpRequest_new [c3_chunk1, c3_chunk2]) = ERROR
   \<and> error_code (feed HttpRequest_new [c3_chunk1, c3_chunk2]) = 431"
proof -
  have "feed HttpRequest_new [c3_chunk1, c3_chunk2]
          = fst (parse (fst (parse HttpRequest_new c3_chunk1)) c3_chunk2)"
    by (simp add: feed_def)
  also have "\<dots> = (c3_s1 c3_chunk1)\<lparr> error_code := 431, state := ERROR \<rparr>"
    unfolding c3_first_chunk by (simp add: parse_terminal terminal_def)
  finally show ?thesis
    by (simp add: c3_one_shot) (simp add: c3_s3_def c3_s2_def c3_s1_def c3_chunk1_def c3_chunk2_def CRLF_def)
qed

lemma loop_body_round_error:
  assumes "loop_body r = Inr r'" and "error_code r \<noteq> 431"
  shows "error_code r' \<noteq> 431"
proof (cases r rule: state_cases)
  case 1
  with assms obtain i where i: "str_find (raw_data r) CRLF (bytes_parsed r) = Some i"
    by (cases "str_find (raw_data r) CRLF (bytes_parsed r)") (simp_all add: loop_body_no_line)
  have "error_code (parseRequestLine q l) \<noteq> 431" if "error_code q \<noteq> 431" for q l
    using that by (simp add: parseRequestLine_tokens Let_def parseQueryString_split)
  moreover have "error_code (parseHeader q l) \<noteq> 431" if "error_code q \<noteq> 431" for q l
    using that by (simp add: parseHeader_def Let_def split: option.splits)
  moreover have "error_code (endOfHeaders q) = error_code q" for q
    by (simp add: endOfHeaders_def readBoundary_def readContentLength_def Let_def split: option.splits)
  ultimately show ?thesis using assms unfolding loop_body_line[OF 1 i]
    by (auto split: if_splits)
next
  case 2
  with assms show ?thesis by (auto simp: loop_body_BODY split: if_splits)
next
  case 3
  with assms show ?thesis by (simp add: loop_body_terminal)
qed

lemma cap_hit_length:
  "error_code s \<noteq> 431 \<Longrightarrow> cap_hit (fst (parse_loop s)) \<Longrightarrow> 8192 < length (raw_data s)"
proof (induction s rule: parse_loop.induct)
  case (1 r)
  show ?case
  proof (cases "terminal r")
    case True
    with "1.prems" show ?thesis by (simp add: parse_loop.simps[of r] cap_hit_def)
  next
    case False
    show ?thesis
    proof (cases "loop_body r")
      case (Inl res)
      obtain t b where res: "res = (t, b)" by (cases res)
      with Inl False have p: "fst (parse_loop r) = t" by (simp add: parse_loop.simps[of r])
      have lb: "loop_body r = Inl (t, b)" using Inl res by simp
      show ?thesis
      proof (cases r rule: state_cases)
        case 1
        with lb have n: "str_find (raw_data r) CRLF (bytes_parsed r) = None"
          by (cases "str_find (raw_data r) CRLF (bytes_parsed r)") (simp_all add: loop_body_line)
        from lb[unfolded loop_body_no_line[OF 1 n]]
        have "t = (if 8192 < length (raw_data r)
                then r\<lparr> error_code := 431, state := ERROR \<rparr> else r)"
          by simp
        with "1.prems" p show ?thesis
          by (cases "8192 < length (raw_data r)") (simp_all add: cap_hit_def)
      next
        case 2
        with lb have "t = r\<lparr> error_code := 501, state := ERROR \<rparr> \<or> t = r"
          by (auto simp: loop_body_BODY split: if_splits)
        with "1.prems" p show ?thesis by (auto simp: cap_hit_def)
      next
        case 3
        with False show ?thesis by simp
      qed
    next
      case (Inr r')
      with False have p: "parse_loop r = parse_loop r'" by (simp add: parse_loop.simps[of r])
      from loop_body_round_error[OF Inr "1.prems"(1)] "1.IH"[OF False Inr] "1.prems"(2) p
      have "8192 < length (raw_data r')" by simp
      with loop_body_raw[OF Inr] show ?thesis by simp
    qed
  qed
qed

lemma small_no_cap_hit:
  assumes "length (concat chunks) \<le> 8192"
  shows "\<forall>k<length chunks. \<not> cap_hit (fst (parse HttpRequest_new (concat (take k chunks))))"
proof (intro allI impI)
  fix k assume "k < length chunks"
  have "length (concat (take k chunks)) \<le> length (concat (take k chunks @ drop k chunks))"
    unfolding concat_append by simp
  with assms have le: "length (concat (take k chunks)) \<le> 8192" by simp
  show "\<not> cap_hit (fst (parse HttpRequest_new (concat (take k chunks))))"
  proof
    assume "cap_hit (fst (parse HttpRequest_new (concat (take k chunks))))"
    then have "cap_hit (fst (parse_loop (ext HttpRequest_new (concat (take k chunks)))))"
      by (simp add: parse_new)
    from cap_hit_length[OF _ this] have "8192 < length (concat (take k chunks))"
      by (simp add: ext_def HttpRequest_new_def)
    with le show False by simp
  qed
qed

lemma chunked_parse_same_small:
  assumes "length (concat chunks) \<le> 8192"
  shows "same_fields (feed HttpRequest_new chunks) (fst (parse HttpRequest_new (concat chunks)))"
  using feed_invariant[OF small_no_cap_hit[OF assms]] by (simp add: strip_same_fields)

text \<open>
  The same holds when the request line and the headers end within the first 8192 bytes,
  however long the body is: once a prefix of at most 8192 bytes has taken the parser past
  the headers, no later chunk boundary can meet the cap.
\<close>

lemma past_headers_no_cap:
  assumes "state s \<noteq> REQUEST_LINE" and "state s \<noteq> HEADERS" and "\<not> cap_hit s"
  shows "\<not> cap_hit (fst (parse_loop s))"
proof (cases s rule: state_cases)
  case 1
  with assms show ?thesis by simp
next
  case 2
  then have nt: "\<not> terminal s" by (simp add: terminal_def)
  let ?c = "s\<lparr> body := substr (raw_data s) (bytes_parsed s) (content_length s),
                bytes_parsed := bytes_parsed s + content_length s, state := COMPLETE \<rparr>"
  have tc: "terminal ?c" by (simp add: terminal_def)
  have pc: "parse_loop ?c = (?c, True)" using tc by (simp add: parse_loop.simps[of ?c])
  from nt 2 pc have "fst (parse_loop s) = s\<lparr> error_code := 501, state := ERROR \<rparr>
        \<or> fst (parse_loop s) = ?c \<or> fst (parse_loop s) = s"
    by (simp add: parse_loop.simps[of s] loop_body_BODY)
  with assms(3) 2 show ?thesis by (auto simp: cap_hit_def)
next
  case 3
  with assms(3) show ?thesis by (simp add: parse_loop.simps[of s])
qed

lemma headers_within_cap_no_cap_hit:
  assumes "prefix p0 (concat chunks)" and "length p0 \<le> 8192"
      and "state (fst (parse HttpRequest_new p0)) \<noteq> REQUEST_LINE"
      and "state (fst (parse HttpRequest_new p0)) \<noteq> HEADERS"
  shows "\<forall>k<length chunks. \<not> cap_hit (fst (parse HttpRequest_new (concat (take k chunks))))"
proof (intro allI impI)
  fix k assume "k < length chunks"
  let ?q = "concat (take k chunks)"
  have n0: "\<not> cap_hit (fst (parse HttpRequest_new p)) " if "length p \<le> 8192" for p
  proof
    assume "cap_hit (fst (parse HttpRequest_new p))"
    then have "cap_hit (fst (parse_loop (ext HttpRequest_new p)))" by (simp add: parse_new)
    from cap_hit_length[OF _ this] have "8192 < length p"
      by (simp add: ext_def HttpRequest_new_def)
    with that show False by simp
  qed
  show "\<not> cap_hit (fst (parse HttpRequest_new ?q))"
  proof (cases "length ?q \<le> 8192")
    case True
    then show ?thesis by (rule n0)
  next
    case False
    with assms(2) have le: "length p0 \<le> length ?q" by simp
    have "prefix ?q (concat chunks)"
      using prefixI[of "concat chunks" ?q "concat (drop k chunks)"]
      by (simp flip: concat_append)
    with assms(1) le have "prefix p0 ?q"
      using prefix_length_prefix by blast
    then obtain e where e: "?q = p0 @ e" by (rule prefixE)
    let ?G = "fst (parse HttpRequest_new p0)"
    have nc: "\<not> cap_hit ?G" using assms(2) by (rule n0)
    have "fst (parse HttpRequest_new ?q) = fst (parse_loop (ext ?G e))"
      using parse_loop_ext[of "ext HttpRequest_new p0" e] nc
      by (simp add: parse_new ext_ext e)
    moreover have "\<not> cap_hit (fst (parse_loop (ext ?G e)))"
      using assms(3,4) nc by (intro past_headers_no_cap) (simp_all add: cap_hit_def)
    ultimately show ?thesis by simp
  qed
qed

lemma chunked_parse_same_headers:
  assumes "prefix p0 (concat chunks)" and "length p0 \<le> 8192"
      and "state (fst (parse HttpRequest_new p0)) \<noteq> REQUEST_LINE"
      and "state (fst (parse HttpRequest_new p0)) \<noteq> HEADERS"
  shows "same_fields (feed HttpRequest_new chunks) (fst (parse HttpRequest_new (concat chunks)))"
  using feed_invariant[OF headers_within_cap_no_cap_hit[OF assms]] by (simp add: strip_same_fields)

definition c3_small_chunks :: "string list" where
  "c3_small_chunks =
     [''GET /a?x=1 HT'', ''TP/1.1'' @ [CHR 0x0D], [CHR 0x0A] @ ''Host: h'' @ CRLF @ [CHR 0x0D],
      [CHR 0x0A]]"

theorem chunked_parse_same_witness:
  "length (concat c3_small_chunks) \<le> 8192
   \<and> \<not> cap_hit (fst (parse HttpRequest_new (concat (take 0 c3_small_chunks))))
   \<and> \<not> cap_hit (fst (parse HttpRequest_new (concat (take 1 c3_small_chunks))))
   \<and> \<not> cap_hit (fst (parse HttpRequest_new (concat (take 2 c3_small_chunks))))
   \<and> \<not> cap_hit (fst (parse HttpRequest_new (concat (take 3 c3_small_chunks))))
   \<and> same_fields (feed HttpRequest_new c3_small_chunks)
        (fst (parse HttpRequest_new (concat c3_small_chunks)))
   \<and> state (feed HttpRequest_new c3_small_chunks) = COMPLETE
   \<and> uri (feed HttpRequest_new c3_small_chunks) = ''/a''"
proof -
  have l: "length (concat c3_small_chunks) \<le> 8192"
    by (simp add: c3_small_chunks_def CRLF_def)
  then have h: "\<forall>k<length c3_small_chunks.
       \<not> cap_hit (fst (parse HttpRequest_new (concat (take k c3_small_chunks))))"
    by (rule small_no_cap_hit)
  have s: "state (fst (parse HttpRequest_new (concat c3_small_chunks))) = COMPLETE" by code_simp
  have b: "uri (fst (parse HttpRequest_new (concat c3_small_chunks))) = ''/a''" by code_simp
  have n: "length c3_small_chunks = 4" by (simp add: c3_small_chunks_def)
  have h4:
    "\<not> cap_hit (fst (parse HttpRequest_new (concat (take 0 c3_small_chunks))))"
    "\<not> cap_hit (fst (parse HttpRequest_new (concat (take 1 c3_small_chunks))))"
    "\<not> cap_hit (fst (parse HttpRequest_new (concat (take 2 c3_small_chunks))))"
    "\<not> cap_hit (fst (parse HttpRequest_new (concat (take 3 c3_small_chunks))))"
    using h[rule_format, of 0] h[rule_format, of 1] h[rule_format, of 2] h[rule_format, of 3] n
    by simp_all
  from chunked_parse_same [OF h] l h4 s b show ?thesis by (simp add: same_fields_def)
qed

section \<open>Properties of the responses and the handlers\<close>

lemma status_code_setHeader [simp]: "status_code (setHeader resp k v) = status_code resp"
  by (simp add: setHeader_def)

lemma status_code_setBody [simp]: "status_code (setBody resp c) = status_code resp"
  by (simp add: setBody_def)

lemma status_code_setContentType [simp]: "status_code (setContentType resp t) = status_code resp"
  by (simp add: setContentType_def)

lemma status_code_new [simp]: "status_code (HttpResponse_new code) = code"
  by (simp add: HttpResponse_new_def)

lemma status_code_builders [simp]:
  "status_code (ok c t) = 200"
  "status_code (badRequest m) = 400"
  "status_code (notFound rf m) = 404"
  "status_code (methodNotAllowed m) = 405"
  "status_code (internalServerError rf m) = 500"
  "status_code (notImplemented m) = 501"
  "status_code (payloadTooLarge m) = 413"
  by (simp_all add: ok_def badRequest_def notFound_def methodNotAllowed_def
      internalServerError_def notImplemented_def payloadTooLarge_def Let_def)

lemma find_sub_sublist: "(find_sub pat s \<noteq> None) = sublist pat s"
proof (induction s)
  case Nil
  show ?case by simp
next
  case (Cons x xs)
  then show ?case by (auto simp: sublist_Cons_right)
qed

lemma str_find_sublist: "(str_find s pat 0 \<noteq> None) = sublist pat s"
  using find_sub_sublist[of pat s] by (simp add: str_find_def)

text \<open>
  Claim C6. If the URI of a request contains \<open>..\<close> anywhere, the static handler answers
  400, whatever the file system holds and whatever the method. Otherwise, for GET and HEAD,
  if \<open>stat\<close> fails on the path made of the root and the URI, it answers 404.
\<close>

theorem static_traversal_and_missing:
  "(sublist ''..'' (uri request) \<longrightarrow> status_code (handleRequest fs h request) = 400)
   \<and> (\<not> sublist ''..'' (uri request)
        \<and> (method request = GET \<or> method request = HEAD)
        \<and> fs_stat fs (combinePaths (root_directory h) (uri request)) = None
      \<longrightarrow> status_code (handleRequest fs h request) = 404)"
proof (intro conjI impI)
  assume "sublist ''..'' (uri request)"
  then have "\<not> isPathSafe (uri request)"
    using str_find_sublist[of "uri request" "''..''"] by (simp add: isPathSafe_def)
  then show "status_code (handleRequest fs h request) = 400"
    by (simp add: handleRequest_def)
next
  assume a: "\<not> sublist ''..'' (uri request)
        \<and> (method request = GET \<or> method request = HEAD)
        \<and> fs_stat fs (combinePaths (root_directory h) (uri request)) = None"
  then have "isPathSafe (uri request)"
    using str_find_sublist[of "uri request" "''..''"] by (simp add: isPathSafe_def)
  with a show "status_code (handleRequest fs h request) = 404"
    by (auto simp: handleRequest_def Let_def fileExists_def)
qed

definition no_files :: filesystem where
  "no_files =
     \<lparr> fs_stat = (\<lambda>p. None), fs_read = (\<lambda>p. None), fs_remove = (\<lambda>p. False),
       fs_readdir = (\<lambda>p. None), fs_write = (\<lambda>p c. False) \<rparr>"

definition only_passwd :: filesystem where
  "only_passwd = no_files\<lparr> fs_stat := (\<lambda>p. if p = ''./www/../etc/passwd'' then Some RegularFile else None),
                            fs_read := (\<lambda>p. if p = ''./www/../etc/passwd'' then Some ''root:x:0:0'' else None) \<rparr>"

definition www_handler :: StaticFileHandler where
  "www_handler = \<lparr> root_directory = ''./www'', directory_listing_enabled = False,
                   default_file = ''index.html'' \<rparr>"

definition traversal_request :: HttpRequest where
  "traversal_request = fst (parse HttpRequest_new (''GET /../etc/passwd HTTP/1.1'' @ CRLF @ CRLF))"

definition missing_request :: HttpRequest where
  "missing_request = fst (parse HttpRequest_new (''HEAD /a.html HTTP/1.1'' @ CRLF @ CRLF))"

theorem static_traversal_and_missing_witness:
  "sublist ''..'' (uri traversal_request)
   \<and> fs_stat only_passwd (combinePaths (root_directory www_handler) (uri traversal_request))
       = Some RegularFile
   \<and> status_code (handleRequest only_passwd www_handler traversal_request) = 400
   \<and> \<not> sublist ''..'' (uri missing_request)
   \<and> method missing_request = HEAD
   \<and> fs_stat no_files (combinePaths (root_directory www_handler) (uri missing_request)) = None
   \<and> status_code (handleRequest no_files www_handler missing_request) = 404"
proof -
  have u1: "uri traversal_request = ''/../etc/passwd''" by code_simp
  have u2: "uri missing_request = ''/a.html''" by code_simp
  have m2: "method missing_request = HEAD" by code_simp
  have s1: "sublist ''..'' (uri traversal_request)"
    unfolding find_sub_sublist[symmetric] u1 by simp
  have s2: "\<not> sublist ''..'' (uri missing_request)"
    unfolding find_sub_sublist[symmetric] u2 by simp
  have p1: "fs_stat only_passwd (combinePaths (root_directory www_handler) (uri traversal_request))
              = Some RegularFile"
    unfolding u1 by code_simp
  have f: "fs_stat no_files (combinePaths (root_directory www_handler) (uri missing_request)) = None"
    by (simp add: no_files_def)
  from static_traversal_and_missing [of traversal_request only_passwd www_handler] s1
  have r1: "status_code (handleRequest only_passwd www_handler traversal_request) = 400"
    by simp
  from static_traversal_and_missing [of missing_request no_files www_handler] s2 m2 f
  have r2: "status_code (handleRequest no_files www_handler missing_request) = 404"
    by simp
  from s1 s2 m2 p1 f r1 r2 show ?thesis by simp
qed

subsection \<open>Sanitized file names\<close>

text \<open>
  The sanitizing of a file name in the words of the specification: the characters kept
  are those of \<open>[A-Za-z0-9._-]\<close>, the rest are replaced by an underscore, after
  everything up to the last slash or backslash has been dropped.
\<close>

definition filename_char :: "char \<Rightarrow> bool" where
  "filename_char c =
     (c \<in> set ''ABCDEFGHIJKLMNOPQRSTUVWXYZabcdefghijklmnopqrstuvwxyz0123456789._-'')"

definition sanitize_spec :: "string \<Rightarrow> string" where
  "sanitize_spec name =
     (let base = rev (takeWhile (\<lambda>c. c \<noteq> CHR ''/'' \<and> c \<noteq> CHR 0x5C) (rev name));
          cleaned = map (\<lambda>c. if filename_char c then c else CHR ''_'') base
      in if cleaned = [] \<or> cleaned = ''.'' \<or> cleaned = ''..'' then ''uploaded_file''
         else cleaned)"

lemma kept_char_all:
  "\<forall>c. (isalnum c \<or> c = CHR ''.'' \<or> c = CHR ''_'' \<or> c = CHR ''-'') = filename_char c"
  by code_simp

lemma kept_char:
  "(isalnum c \<or> c = CHR ''.'' \<or> c = CHR ''_'' \<or> c = CHR ''-'') = filename_char c"
  using kept_char_all by blast

lemma strip_path:
  "(case find_last_of name [CHR ''/'', CHR 0x5C] of
      Some last_slash \<Rightarrow> substr_from name (last_slash + 1)
    | None \<Rightarrow> name)
   = rev (takeWhile (\<lambda>c. c \<noteq> CHR ''/'' \<and> c \<noteq> CHR 0x5C) (rev name))"
proof (cases "\<exists>x \<in> set name. x \<in> set [CHR ''/'', CHR 0x5C]")
  case True
  let ?P = "\<lambda>c. c \<noteq> CHR ''/'' \<and> c \<noteq> CHR 0x5C"
  let ?k = "length (takeWhile ?P (rev name))"
  have P: "(\<lambda>x. x \<notin> set [CHR ''/'', CHR 0x5C]) = ?P" by auto
  from True have "\<exists>x \<in> set (rev name). \<not> ?P x" by auto
  then have "takeWhile ?P (rev name) \<noteq> rev name"
    by (simp add: takeWhile_eq_all_conv)
  then have "?k \<noteq> length (rev name)"
    using takeWhile_eq_take[of ?P "rev name"] by auto
  with length_takeWhile_le[of ?P "rev name"] have k: "?k < length name" by simp
  have "rev (takeWhile ?P (rev name)) = rev (take ?k (rev name))"
    using takeWhile_eq_take[of ?P "rev name"] by simp
  also have "\<dots> = drop (length name - ?k) name"
    by (simp add: take_rev)
  finally have "rev (takeWhile ?P (rev name)) = drop (length name - ?k) name" .
  moreover from k have "length name - 1 - ?k + 1 = length name - ?k" by simp
  ultimately show ?thesis using True
    by (simp add: find_last_of_def substr_from_def P)
next
  case False
  then have "\<forall>x \<in> set (rev name). x \<noteq> CHR ''/'' \<and> x \<noteq> CHR 0x5C" by auto
  then have tw: "takeWhile (\<lambda>c. c \<noteq> CHR ''/'' \<and> c \<noteq> CHR 0x5C) (rev name) = rev name"
    by (simp add: takeWhile_eq_all_conv)
  from False have none: "find_last_of name [CHR ''/'', CHR 0x5C] = None"
    by (simp add: find_last_of_def)
  show ?thesis unfolding none tw by simp
qed

lemma sanitize_refines: "sanitizeFilename name = sanitize_spec name"
  unfolding sanitizeFilename_def sanitize_spec_def strip_path kept_char ..

lemma sanitize_spec_safe:
  "sanitize_spec name \<noteq> [] \<and> sanitize_spec name \<noteq> ''.'' \<and> sanitize_spec name \<noteq> ''..''
   \<and> CHR ''/'' \<notin> set (sanitize_spec name) \<and> CHR 0x5C \<notin> set (sanitize_spec name)"
proof -
  have "\<not> filename_char (CHR ''/'')" "\<not> filename_char (CHR 0x5C)"
    by (simp_all add: filename_char_def)
  then have "CHR ''/'' \<notin> set (map (\<lambda>c. if filename_char c then c else CHR ''_'') xs)
           \<and> CHR 0x5C \<notin> set (map (\<lambda>c. if filename_char c then c else CHR ''_'') xs)" for xs
    by (induction xs) auto
  then show ?thesis
    by (simp add: sanitize_spec_def Let_def)
qed

text \<open>
  Claim C7. For every input string the sanitized name equals what the specification
  describes: the part after the last slash or backslash, with every character outside
  \<open>[A-Za-z0-9._-]\<close> replaced by an underscore, and \<open>uploaded_file\<close> in place of an empty
  result, \<open>.\<close> or \<open>..\<close>. So the name is never empty, is neither \<open>.\<close> nor \<open>..\<close>, and holds
  no slash and no backslash.
\<close>

theorem sanitizeFilename_spec:
  "sanitizeFilename name = sanitize_spec name
   \<and> sanitizeFilename name \<noteq> [] \<and> sanitizeFilename name \<noteq> ''.''
   \<and> sanitizeFilename name \<noteq> ''..''
   \<and> CHR ''/'' \<notin> set (sanitizeFilename name) \<and> CHR 0x5C \<notin> set (sanitizeFilename name)"
  using sanitize_spec_safe[of name] by (simp add: sanitize_refines)

theorem sanitizeFilename_spec_witness:
  "sanitizeFilename ''../../etc/pass wd'' = ''pass_wd''
   \<and> sanitizeFilename ''dir/..'' = ''uploaded_file''"
proof -
  have a: "sanitize_spec ''../../etc/pass wd'' = ''pass_wd''" by code_simp
  have b: "sanitize_spec ''dir/..'' = ''uploaded_file''" by code_simp
  from sanitizeFilename_spec [of "''../../etc/pass wd''"] sanitizeFilename_spec [of "''dir/..''"] a b
  show ?thesis by simp
qed

subsection \<open>Routing\<close>

lemma find_sub_zero: "(find_sub pat s = Some 0) = prefix pat s"
  by (cases s) (auto split: option.splits)

lemma str_find_zero_prefix: "(str_find s pat 0 = Some 0) = prefix pat s"
  using find_sub_zero[of pat s] by (simp add: str_find_def option.map_ident)




lemma default_findLocation:
  "findLocation u default_config = (if prefix ''/'' u then Some root_location else None)"
  by (simp add: findLocation_def default_config_def str_find_zero_prefix root_location_def)


text \<open>
  A table with two nested locations, a request for each case of the claim, and a machine
  on which no pipe can be made.
\<close>

definition no_processes :: process_env where
  "no_processes = \<lparr> pipe_ok = False, fork_ok = False, exec_output = (\<lambda>i a e b. None) \<rparr>"





text \<open>
  Claim C10. When a location is selected, the check of the method is made on the method
  string against the list of the location, before any handler is looked at: a method
  outside the list gives the 405 response of the router, whatever the file system and the
  CGI environment are, and so does every method when the list is empty. The built-in
  configuration has the single location \<open>/\<close> with GET, POST and DELETE: it is selected
  exactly for the URIs that begin with a slash, and then every HEAD and every PUT request
  gets that 405 response.
\<close>

theorem method_check_unconditional:
  "(\<forall>loc. findLocation (uri request) cfg = Some loc
           \<and> getMethodString request \<notin> set (methods loc)
        \<longrightarrow> buildResponse cfg fs penv request
              = methodNotAllowed ''Method not allowed for this location'')
   \<and> (\<forall>loc. findLocation (uri request) cfg = Some loc \<and> methods loc = []
        \<longrightarrow> buildResponse cfg fs penv request
              = methodNotAllowed ''Method not allowed for this location'')
   \<and> findLocation (uri request) default_config
        = (if prefix ''/'' (uri request) then Some root_location else None)
   \<and> (findLocation (uri request) default_config \<noteq> None
        \<and> (method request = HEAD \<or> method request = PUT)
        \<longrightarrow> buildResponse default_config fs penv request
              = methodNotAllowed ''Method not allowed for this location''
            \<and> status_code (buildResponse default_config fs penv request) = 405)"
proof (intro conjI allI impI)
  fix loc
  assume "findLocation (uri request) cfg = Some loc
           \<and> getMethodString request \<notin> set (methods loc)"
  then show "buildResponse cfg fs penv request
              = methodNotAllowed ''Method not allowed for this location''"
    by (simp add: buildResponse_def)
next
  fix loc
  assume "findLocation (uri request) cfg = Some loc \<and> methods loc = []"
  then show "buildResponse cfg fs penv request
              = methodNotAllowed ''Method not allowed for this location''"
    by (simp add: buildResponse_def)
next
  show "findLocation (uri request) default_config
        = (if prefix ''/'' (uri request) then Some root_location else None)"
    by (rule default_findLocation)
next
  assume a: "findLocation (uri request) default_config \<noteq> None
        \<and> (method request = HEAD \<or> method request = PUT)"
  then have f: "findLocation (uri request) default_config = Some root_location"
    by (simp add: default_findLocation split: if_splits)
  from a have "getMethodString request \<notin> set (methods root_location)"
    by (auto simp: getMethodString_def root_location_def)
  with f show r: "buildResponse default_config fs penv request
              = methodNotAllowed ''Method not allowed for this location''"
    by (simp add: buildResponse_def)
  show "status_code (buildResponse default_config fs penv request) = 405"
    unfolding r by simp
qed

definition head_request :: HttpRequest where
  "head_request = fst (parse HttpRequest_new (''HEAD /index.html HTTP/1.1'' @ CRLF @ CRLF))"

definition put_request :: HttpRequest where
  "put_request =
     fst (parse HttpRequest_new
            (''PUT /new.txt HTTP/1.1'' @ CRLF @ ''Content-Length: 2'' @ CRLF @ CRLF @ ''hi''))"

theorem method_check_unconditional_witness:
  "state head_request = COMPLETE \<and> method head_request = HEAD
   \<and> findLocation (uri head_request) default_config = Some root_location
   \<and> status_code (buildResponse default_config no_files no_processes head_request) = 405
   \<and> state put_request = COMPLETE \<and> method put_request = PUT
   \<and> findLocation (uri put_request) default_config = Some root_location
   \<and> status_code (buildResponse default_config no_files no_processes put_request) = 405
   \<and> status_code (buildResponse (default_config\<lparr> locations := [root_location\<lparr> methods := [] \<rparr>] \<rparr>)
                      no_files no_processes head_request) = 405"
proof -
  have h: "state head_request = COMPLETE" "method head_request = HEAD"
          "uri head_request = ''/index.html''"
    by code_simp+
  have p: "state put_request = COMPLETE" "method put_request = PUT"
          "uri put_request = ''/new.txt''"
    by code_simp+
  have fh: "findLocation (uri head_request) default_config = Some root_location"
    using method_check_unconditional [of head_request default_config no_files no_processes]
    by (simp add: h)
  have fp: "findLocation (uri put_request) default_config = Some root_location"
    using method_check_unconditional [of put_request default_config no_files no_processes]
    by (simp add: p)
  have rh: "status_code (buildResponse default_config no_files no_processes head_request) = 405"
    using method_check_unconditional [of head_request default_config no_files no_processes] fh h by simp
  have rp: "status_code (buildResponse default_config no_files no_processes put_request) = 405"
    using method_check_unconditional [of put_request default_config no_files no_processes] fp p by simp
  have fe: "findLocation (uri head_request) (default_config\<lparr> locations := [root_location\<lparr> methods := [] \<rparr>] \<rparr>)
              = Some (root_location\<lparr> methods := [] \<rparr>)"
    by (simp add: h findLocation_def str_find_zero_prefix root_location_def)
  have re: "status_code (buildResponse (default_config\<lparr> locations := [root_location\<lparr> methods := [] \<rparr>] \<rparr>)
                      no_files no_processes head_request) = 405"
    using method_check_unconditional [of head_request
            "default_config\<lparr> locations := [root_location\<lparr> methods := [] \<rparr>] \<rparr>" no_files no_processes] fe
    by simp
  from h p fh fp rh rp re show ?thesis by simp
qed

subsection \<open>The status of a CGI response\<close>

text \<open>
  A location that runs \<open>.py\<close> files through an interpreter, a file system that holds the
  script, and two machines: one on which the script prints a status header of its own,
  one on which \<open>execve\<close> fails.
\<close>

definition cgi_config :: ServerConfig where
  "cgi_config =
     default_config\<lparr> locations :=
       [root_location\<lparr> cgi_extensions := [(''.py'', ''/usr/bin/python3'')] \<rparr>] \<rparr>"

definition script_fs :: filesystem where
  "script_fs =
     no_files\<lparr> fs_stat := (\<lambda>p. if p = ''./www//cgi-bin/test.py'' then Some RegularFile else None) \<rparr>"

definition status_404_script :: process_env where
  "status_404_script =
     \<lparr> pipe_ok = True, fork_ok = True,
       exec_output = (\<lambda>i a e b. Some (''Status: 404'' @ CRLF @ CRLF @ ''body'')) \<rparr>"

definition exec_fails :: process_env where
  "exec_fails = \<lparr> pipe_ok = True, fork_ok = True, exec_output = (\<lambda>i a e b. None) \<rparr>"

definition cgi_request :: HttpRequest where
  "cgi_request = fst (parse HttpRequest_new (''GET /cgi-bin/test.py HTTP/1.1'' @ CRLF @ CRLF))"

lemma executeCgi_status:
  "status_code (executeCgi fs penv script_path interpreter request location) = 200
   \<or> status_code (executeCgi fs penv script_path interpreter request location) = 404
   \<or> status_code (executeCgi fs penv script_path interpreter request location) = 500"
  by (simp add: executeCgi_def Let_def split: prod.splits)

text \<open>
  Claim C1 fails on the code. The script's output \<open>Status: 404\<close>, blank line, \<open>body\<close> is
  read as the code 404, yet the response the gateway returns for it has status 200; and
  when \<open>execve\<close> fails, the child's own \<open>Status: 500\<close> output is answered with 200 as well.
\<close>

theorem cgi_status_not_applied:
  "parse_cgi_output (''Status: 404'' @ CRLF @ CRLF @ ''body'') = (''body'', ''text/html'', 404)
   \<and> status_code (buildResponse cgi_config script_fs status_404_script cgi_request) = 200
   \<and> response_body (buildResponse cgi_config script_fs status_404_script cgi_request) = ''body''
   \<and> take 15 (build (buildResponse cgi_config script_fs status_404_script cgi_request))
       = ''HTTP/1.1 200 OK''
   \<and> status_code (buildResponse cgi_config script_fs exec_fails cgi_request) = 200
   \<and> response_body (buildResponse cgi_config script_fs exec_fails cgi_request)
       = ''CGI exec failed''"
proof -
  let ?loc = "root_location\<lparr> cgi_extensions := [(''.py'', ''/usr/bin/python3'')] \<rparr>"
  have u: "uri cgi_request = ''/cgi-bin/test.py''" by code_simp
  have m: "getMethodString cgi_request = ''GET''" by code_simp
  have l: "findLocation ''/cgi-bin/test.py'' cgi_config = Some ?loc"
    by (simp add: findLocation_def cgi_config_def default_config_def root_location_def
        str_find_zero_prefix)
  have q: "find_char ''/cgi-bin/test.py'' (CHR ''?'') = None" by code_simp
  have e: "find_last_of ''/cgi-bin/test.py'' ''.'' = Some 13" by code_simp
  have x: "substr_from ''/cgi-bin/test.py'' 13 = ''.py''" by code_simp
  have r: "buildResponse cgi_config script_fs penv cgi_request
             = executeCgi script_fs penv ''./www//cgi-bin/test.py'' ''/usr/bin/python3''
                 cgi_request ?loc" for penv
    unfolding buildResponse_def m u l option.case q e x Let_def
    by (simp add: root_location_def)
  have a: "parse_cgi_output (''Status: 404'' @ CRLF @ CRLF @ ''body'') = (''body'', ''text/html'', 404)"
    by code_simp
  have b: "status_code (executeCgi script_fs status_404_script ''./www//cgi-bin/test.py''
             ''/usr/bin/python3'' cgi_request ?loc) = 200"
    by code_simp
  have c: "response_body (executeCgi script_fs status_404_script ''./www//cgi-bin/test.py''
             ''/usr/bin/python3'' cgi_request ?loc) = ''body''"
    by code_simp
  have d: "take 15 (build (executeCgi script_fs status_404_script ''./www//cgi-bin/test.py''
             ''/usr/bin/python3'' cgi_request ?loc)) = ''HTTP/1.1 200 OK''"
    by code_simp
  have e: "status_code (executeCgi script_fs exec_fails ''./www//cgi-bin/test.py''
             ''/usr/bin/python3'' cgi_request ?loc) = 200"
    by code_simp
  have f: "response_body (executeCgi script_fs exec_fails ''./www//cgi-bin/test.py''
             ''/usr/bin/python3'' cgi_request ?loc) = ''CGI exec failed''"
    by code_simp
  from a b c d e f show ?thesis unfolding r by simp
qed

subsection \<open>The response to a parse error\<close>

definition fresh_connection :: connection where
  "fresh_connection = \<lparr> conn_request = HttpRequest_new, conn_output = [] \<rparr>"

definition http2_request :: string where
  "http2_request = ''GET / HTTP/2.0'' @ CRLF"

definition chunked_request :: string where
  "chunked_request =
     ''POST /upload HTTP/1.1'' @ CRLF @ ''Transfer-Encoding: chunked'' @ CRLF @ CRLF"

text \<open>
  Claim C2 fails on the code. A request line with version \<open>HTTP/2.0\<close> ends the parse with
  error 505, and the bytes queued for the client are the 501 response; a chunked request
  ends it with error 501, and the bytes queued are the 400 response; so is the response
  chosen for error 431. Only 400 and 405 are answered with their own code.
\<close>

theorem parse_error_response_codes:
  "error_code (fst (parse HttpRequest_new http2_request)) = 505
   \<and> map_option conn_output
         (handleClientData default_config no_files no_processes fresh_connection (Some http2_request))
       = Some (build (notImplemented ''HTTP Version Not Supported''))
   \<and> take 12 (build (notImplemented ''HTTP Version Not Supported'')) = ''HTTP/1.1 501''
   \<and> error_code (fst (parse HttpRequest_new chunked_request)) = 501
   \<and> map_option conn_output
         (handleClientData default_config no_files no_processes fresh_connection (Some chunked_request))
       = Some (build (badRequest ''Bad Request''))
   \<and> take 12 (build (badRequest ''Bad Request'')) = ''HTTP/1.1 400''
   \<and> status_code (parse_error_response 505) = 501
   \<and> status_code (parse_error_response 501) = 400
   \<and> status_code (parse_error_response 431) = 400
   \<and> status_code (parse_error_response 405) = 405
   \<and> status_code (parse_error_response 400) = 400"
proof -
  have a: "error_code (fst (parse HttpRequest_new http2_request)) = 505"
          "state (fst (parse HttpRequest_new http2_request)) = ERROR"
          "\<not> snd (parse HttpRequest_new http2_request)"
    by code_simp+
  have d: "error_code (fst (parse HttpRequest_new chunked_request)) = 501"
          "state (fst (parse HttpRequest_new chunked_request)) = ERROR"
          "\<not> snd (parse HttpRequest_new chunked_request)"
    by code_simp+
  have n: "http2_request \<noteq> []" "chunked_request \<noteq> []"
    by (simp_all add: http2_request_def chunked_request_def)
  have b: "map_option conn_output
         (handleClientData default_config no_files no_processes fresh_connection (Some http2_request))
       = Some (build (notImplemented ''HTTP Version Not Supported''))"
    using a n
    by (simp add: handleClientData_def fresh_connection_def case_prod_beta sendToClient_def
        parse_error_response_def)
  have e: "map_option conn_output
         (handleClientData default_config no_files no_processes fresh_connection (Some chunked_request))
       = Some (build (badRequest ''Bad Request''))"
    using d n
    by (simp add: handleClientData_def fresh_connection_def case_prod_beta sendToClient_def
        parse_error_response_def)
  have c: "take 12 (build (notImplemented ''HTTP Version Not Supported'')) = ''HTTP/1.1 501''"
    by code_simp
  have f: "take 12 (build (badRequest ''Bad Request'')) = ''HTTP/1.1 400''"
    by code_simp
  from a b c d e f show ?thesis by (simp add: parse_error_response_def)
qed

end
